theory Spec2Isabelle
  imports Main "HOL-Library.Sublist"
begin

text \<open>
  A model of \<open>src/common/merge.ts\<close>, the core of an action that merges a pull request once
  its checks have settled: the modification detector \<open>getIsModified\<close>, the retry engine
  \<open>merge\<close>, \<open>shouldRetry\<close> and \<open>mergeWithRetry\<close>, and the entry point \<open>tryMerge\<close>.

  The functions are asynchronous and act on the outside world; the model makes both
  explicit. A function takes the trace of what has happened so far and returns its
  result with the extended trace; a rejected promise is a result \<open>Inl e\<close>; a call that
  never settles is \<open>None\<close>. JavaScript numbers are integers here, and \<open>null\<close> is \<open>None\<close>.
\<close>

section \<open>Values exchanged with the platform\<close>

text \<open>
  A JavaScript \<open>Error\<close> value: its \<open>name\<close> and its \<open>message\<close>. Every rejection of the
  executor and every fault of a property access on \<open>null\<close> is such a value.
\<close>

record error =
  name :: string
  message :: string

definition TypeError :: "string \<Rightarrow> error" where
  "TypeError m = \<lparr>name = ''TypeError'', message = m\<rparr>"

text \<open>\<open>Error.prototype.toString\<close>, used by the template literal of the debug log.\<close>

definition error_toString :: "error \<Rightarrow> string" where
  "error_toString e =
     (if name e = [] then message e
      else if message e = [] then name e
      else name e @ '': '' @ message e)"

text \<open>
  Modelled from the spec: \<open>PullRequestCommitNode\<close> (\<open>../types\<close> is not part of the
  sources), a commit of the pull request with the two fields \<open>getIsModified\<close> reads, the
  author with its user's login and the signature with its validity. The author, the
  author's user and the signature may be absent (\<open>null\<close>).
\<close>

record git_user =
  login :: string

record git_actor =
  user :: "git_user option"

record git_signature =
  isValid :: bool

record git_commit =
  author :: "git_actor option"
  signature :: "git_signature option"

record PullRequestCommitNode =
  commit :: git_commit

text \<open>
  Modelled from the spec: \<open>IterableList\<close> (\<open>./makeGraphqlIterator\<close> is not part of the
  sources), one page of a cursor-paginated list: its nodes and the page information
  \<open>hasNextPage\<close> and \<open>endCursor\<close>.
\<close>

record pageInfo =
  endCursor :: "string option"
  hasNextPage :: bool

record IterableList =
  nodes :: "PullRequestCommitNode list"
  pageInfo :: pageInfo

text \<open>The part of a query response that \<open>extractListFunction\<close> walks through.\<close>

record pull_request_data =
  commits :: IterableList

record repository_data =
  pullRequest :: "pull_request_data option"

record GraphQlQueryResponseData =
  repository :: "repository_data option"

text \<open>
  Modelled from the spec: the merge methods accepted by \<open>parseInputMergeMethod\<close>
  (\<open>../utilities/inputParsers\<close> is not part of the sources), a closed set.
\<close>

datatype merge_method = MERGE | SQUASH | REBASE

text \<open>
  Modelled from the spec: the two mutation descriptors of \<open>../graphql/mutations\<close> (not
  part of the sources), the approve-and-merge and the merge-only variant, each built from
  a merge method; they are kept apart as constructors.
\<close>

datatype mutation =
  approveAndMergePullRequestMutation merge_method
| mergePullRequestMutation merge_method

text \<open>
  The requests the executor receives: the commit query \<open>findPullRequestCommits\<close> with its
  parameters (pull request number, repository name, repository owner) and the cursor, or
  a mutation with the commit headline and the pull request id.
\<close>

datatype pull_request_query = PullRequestQuery int string string

datatype request =
  FindPullRequestCommits pull_request_query "string option"
| Mutation mutation string string

section \<open>Effects\<close>

text \<open>
  Everything the code does besides returning is recorded, in order, in a trace: a call of
  \<open>octokit.graphql\<close>, a suspension by \<open>delay\<close>, a line written by \<open>logInfo\<close>,
  \<open>logWarning\<close> or \<open>logDebug\<close>, and a call of \<open>parseInputMergeMethod\<close> with its answer.
\<close>

datatype event =
  Graphql request
| Delay int
| LogInfo string
| LogWarning string
| LogDebug string
| ParsedMergeMethod merge_method

type_synonym trace = "event list"

fun requests :: "trace \<Rightarrow> request list" where
  "requests [] = []"
| "requests (Graphql r # es) = r # requests es"
| "requests (_ # es) = requests es"

fun parses :: "trace \<Rightarrow> merge_method list" where
  "parses [] = []"
| "parses (ParsedMergeMethod m # es) = m # parses es"
| "parses (_ # es) = parses es"

fun is_mutation :: "request \<Rightarrow> bool" where
  "is_mutation (Mutation _ _ _) = True"
| "is_mutation (FindPullRequestCommits _ _) = False"

fun is_log :: "event \<Rightarrow> bool" where
  "is_log (LogInfo _) = True"
| "is_log (LogWarning _) = True"
| "is_log (LogDebug _) = True"
| "is_log _ = False"

text \<open>
  The executor \<open>octokit\<close> handed to every function of the module. It is deterministic in
  the requests it has received: \<open>octokit earlier r\<close> is its answer to \<open>r\<close> after the
  requests \<open>earlier\<close>, a rejection (\<open>Inl\<close>) or a response.
\<close>

type_synonym executor = "request list \<Rightarrow> request \<Rightarrow> error + GraphQlQueryResponseData"

definition graphql :: "executor \<Rightarrow> request \<Rightarrow> trace \<Rightarrow> (error + GraphQlQueryResponseData) \<times> trace" where
  "graphql octokit r tr = (octokit (requests tr) r, tr @ [Graphql r])"

text \<open>
  What the module imports and calls without an argument of its own: the action's inputs,
  the parser of the merge method (\<open>parseInputMergeMethod env k\<close> is the answer of the call
  that follows \<open>k\<close> earlier calls), the title check, and the two constants of \<open>./delay\<close>.
  The parser, the title check and the constants are not part of the sources: they are
  parameters here, and the two functions are taken to return normally. The exponent is a
  natural number.
\<close>

record environment =
  getInput :: "string \<Rightarrow> string"
  parseInputMergeMethod :: "nat \<Rightarrow> merge_method"
  checkPullRequestTitleForMergePreset :: "string \<Rightarrow> bool"
  EXPONENTIAL_BACKOFF :: nat
  MINIMUM_WAIT_TIME :: int

definition call_parseInputMergeMethod :: "environment \<Rightarrow> trace \<Rightarrow> merge_method \<times> trace" where
  "call_parseInputMergeMethod env tr =
     (let m = parseInputMergeMethod env (length (parses tr)) in (m, tr @ [ParsedMergeMethod m]))"

section \<open>Number and string helpers\<close>

text \<open>\<open>Number.prototype.toString\<close> on an integer, and \<open>String.prototype.includes\<close>.\<close>

function nat_toString :: "nat \<Rightarrow> string" where
  "nat_toString n =
     (if n < 10 then [''0123456789'' ! n]
      else nat_toString (n div 10) @ [''0123456789'' ! (n mod 10)])"
  by pat_completeness auto
termination
  by (relation "measure id") auto

declare nat_toString.simps [simp del]

definition toString :: "int \<Rightarrow> string" where
  "toString i = (if i < 0 then CHR ''-'' # nat_toString (nat (- i)) else nat_toString (nat i))"

fun string_includes :: "string \<Rightarrow> string \<Rightarrow> bool" where
  "string_includes [] p = (p = [])"
| "string_includes (c # cs) p = (prefix p (c # cs) \<or> string_includes cs p)"

section \<open>The paginated fetcher\<close>

text \<open>
  The projection passed to the fetcher by \<open>getIsModified\<close>:
  \<open>response.repository.pullRequest?.commits\<close>. Reading \<open>pullRequest\<close> of a \<open>null\<close>
  repository is a fault; a \<open>null\<close> pull request gives \<open>undefined\<close>.
\<close>

definition extractListFunction :: "GraphQlQueryResponseData \<Rightarrow> error + IterableList option" where
  "extractListFunction response =
     (case repository response of
        None \<Rightarrow> Inl (TypeError ''Cannot read properties of null (reading 'pullRequest')'')
      | Some r \<Rightarrow> Inr (map_option commits (pullRequest r)))"

text \<open>
  Modelled from the spec: \<open>makeGraphqlIterator\<close> (\<open>./makeGraphqlIterator\<close> is not part of
  the sources). A lazy, single-pass, forward-only sequence: the fetcher keeps a cursor,
  initially absent, and a buffer of the current page; when the buffer is exhausted and the
  last page had \<open>hasNextPage\<close>, it issues the query with the cursor at the previous
  \<open>endCursor\<close> and refills the buffer; when the last page had no next page, the sequence
  ends. A response in which the projection finds no page is an error of the traversal.
  Before the first query the fetcher has a page to ask for.
\<close>

record iterator =
  parameters :: pull_request_query
  buffer :: "PullRequestCommitNode list"
  cursor :: "string option"
  pending :: bool

text \<open>
  Modelled from the spec: a fresh fetcher, with no page fetched and no cursor.
\<close>

definition makeGraphqlIterator :: "pull_request_query \<Rightarrow> iterator" where
  "makeGraphqlIterator q = \<lparr>parameters = q, buffer = [], cursor = None, pending = True\<rparr>"

text \<open>
  Modelled from the spec: the error of a response without the expected page. The spec
  gives no wording for it; no property below depends on the message.
\<close>

definition missing_list :: error where
  "missing_list = \<lparr>name = ''Error'', message = ''Could not find the list in the response.''\<rparr>"

text \<open>
  Modelled from the spec: \<open>iterator.next()\<close> on the fetcher. \<open>None\<close> when the call never
  settles (pages without end and without nodes), otherwise the error thrown, or the next
  node with the fetcher advanced, or \<open>done\<close> (no node).
\<close>

partial_function (option) iterator_next ::
  "executor \<Rightarrow> iterator \<Rightarrow> trace \<Rightarrow> ((error + PullRequestCommitNode option \<times> iterator) \<times> trace) option" where
  "iterator_next octokit it tr =
     (case buffer it of
        node # rest \<Rightarrow> Some (Inr (Some node, it\<lparr>buffer := rest\<rparr>), tr)
      | [] \<Rightarrow>
          if \<not> pending it then Some (Inr (None, it), tr)
          else
            (case graphql octokit (FindPullRequestCommits (parameters it) (cursor it)) tr of
               (Inl e, tr1) \<Rightarrow> Some (Inl e, tr1)
             | (Inr response, tr1) \<Rightarrow>
                 (case extractListFunction response of
                    Inl e \<Rightarrow> Some (Inl e, tr1)
                  | Inr None \<Rightarrow> Some (Inl missing_list, tr1)
                  | Inr (Some list) \<Rightarrow>
                      iterator_next octokit
                        (it\<lparr>buffer := nodes list,
                            cursor := endCursor (pageInfo list),
                            pending := hasNextPage (pageInfo list)\<rparr>) tr1)))"

declare iterator_next.simps [code]

section \<open>The modification detector\<close>

text \<open>\<open>x.user.login\<close> for an author \<open>x\<close> that may be \<open>null\<close>, with a \<open>user\<close> that may be.\<close>

definition author_user_login :: "git_actor option \<Rightarrow> error + string" where
  "author_user_login a =
     (case a of
        None \<Rightarrow> Inl (TypeError ''Cannot read properties of null (reading 'user')'')
      | Some x \<Rightarrow>
          (case user x of
             None \<Rightarrow> Inl (TypeError ''Cannot read properties of null (reading 'login')'')
           | Some u \<Rightarrow> Inr (login u)))"

text \<open>
  The \<open>for await\<close> loop of \<open>getIsModified\<close>, which takes its nodes from the fetcher that
  already delivered \<open>firstResult\<close>.
\<close>

partial_function (option) getIsModified_loop ::
  "executor \<Rightarrow> PullRequestCommitNode \<Rightarrow> iterator \<Rightarrow> trace \<Rightarrow> ((error + bool) \<times> trace) option" where
  "getIsModified_loop octokit firstResult it tr =
     Option.bind (iterator_next octokit it tr) (\<lambda>step.
       case step of
         (Inl e, tr1) \<Rightarrow> Some (Inl e, tr1)
       | (Inr (None, it1), tr1) \<Rightarrow> Some (Inr False, tr1)
       | (Inr (Some commitNode, it1), tr1) \<Rightarrow>
           (case signature (commit commitNode) of
              None \<Rightarrow>
                Some (Inr True, tr1 @
                  [LogWarning ''Commit signature not present or invalid, regarding PR as modified.''])
            | Some sig \<Rightarrow>
                if \<not> isValid sig then
                  Some (Inr True, tr1 @
                    [LogWarning ''Commit signature not present or invalid, regarding PR as modified.''])
                else
                  (case author_user_login (author (commit commitNode)) of
                     Inl e \<Rightarrow> Some (Inl e, tr1)
                   | Inr l \<Rightarrow>
                       (case author_user_login (author (commit firstResult)) of
                          Inl e \<Rightarrow> Some (Inl e, tr1)
                        | Inr l0 \<Rightarrow>
                            if l \<noteq> l0 then Some (Inr True, tr1)
                            else getIsModified_loop octokit firstResult it1 tr1))))"

declare getIsModified_loop.simps [code]

definition getIsModified :: "executor \<Rightarrow> pull_request_query \<Rightarrow> trace \<Rightarrow> ((error + bool) \<times> trace) option" where
  "getIsModified octokit query tr =
     Option.bind (iterator_next octokit (makeGraphqlIterator query) tr) (\<lambda>firstResult.
       case firstResult of
         (Inl e, tr1) \<Rightarrow> Some (Inl e, tr1)
       | (Inr (None, it1), tr1) \<Rightarrow>
           Some (Inr True, tr1 @ [LogWarning ''Could not find PR commits, aborting.''])
       | (Inr (Some first, it1), tr1) \<Rightarrow> getIsModified_loop octokit first it1 tr1)"

section \<open>The merge retry engine\<close>

text \<open>
  A review edge, \<open>{ node: { state: string } }\<close>, and \<open>PullRequestDetails\<close>.
\<close>

record review_node =
  state :: string

record review_edge =
  node :: review_node

record PullRequestDetails =
  commitHeadline :: string
  pullRequestId :: string
  reviewEdge :: "review_edge option"

text \<open>\<open>PullRequestDetails & { maximumRetries: number; retryCount: number }\<close>\<close>

record retry_details = PullRequestDetails +
  maximumRetries :: int
  retryCount :: int

text \<open>
  \<open>merge\<close>: resolves the merge method, chooses the mutation by the presence of a review
  edge and executes it. The result is the rejection of the executor, if any.
\<close>

definition merge ::
  "environment \<Rightarrow> executor \<Rightarrow> 'a PullRequestDetails_scheme \<Rightarrow> trace \<Rightarrow> (error + unit) \<times> trace" where
  "merge env octokit pullRequestDetails tr =
     (case call_parseInputMergeMethod env tr of
        (mergeMethod, tr1) \<Rightarrow>
          (let mutation =
                 (case reviewEdge pullRequestDetails of
                    None \<Rightarrow> approveAndMergePullRequestMutation mergeMethod
                  | Some _ \<Rightarrow> mergePullRequestMutation mergeMethod)
           in case graphql octokit
                     (Mutation mutation (commitHeadline pullRequestDetails)
                        (pullRequestId pullRequestDetails)) tr1 of
                (Inl e, tr2) \<Rightarrow> (Inl e, tr2)
              | (Inr _, tr2) \<Rightarrow> (Inr (), tr2)))"

definition shouldRetry :: "error \<Rightarrow> int \<Rightarrow> int \<Rightarrow> trace \<Rightarrow> bool \<times> trace" where
  "shouldRetry error retryCount' maximumRetries' tr =
     (let isRetryableError = string_includes (message error) ''Base branch was modified.'' in
      if isRetryableError \<and> retryCount' > maximumRetries' then
        (False, tr @
          [LogInfo (''Unable to merge after '' @ toString retryCount' @
                    '' attempts. Retries exhausted.'')])
      else (isRetryableError, tr))"

definition rebase_hint :: string where
  "rebase_hint =
     ''An error ocurred while merging the Pull Request. This is usually '' @
     ''caused by the base branch being out of sync with the target '' @
     ''branch. In this case, the base branch must be rebased. Some '' @
     ''tools, such as Dependabot, do that automatically.''"

function mergeWithRetry ::
  "environment \<Rightarrow> executor \<Rightarrow> retry_details \<Rightarrow> trace \<Rightarrow> (error + unit) \<times> trace" where
  "mergeWithRetry env octokit details tr =
     (case merge env octokit details tr of
        (Inr _, tr1) \<Rightarrow> (Inr (), tr1)
      | (Inl error, tr1) \<Rightarrow>
          (case shouldRetry error (retryCount details) (maximumRetries details) tr1 of
             (True, tr2) \<Rightarrow>
               (let nextRetryIn =
                      retryCount details ^ EXPONENTIAL_BACKOFF env * MINIMUM_WAIT_TIME env
                in mergeWithRetry env octokit
                     (details\<lparr>maximumRetries := maximumRetries details,
                              retryCount := retryCount details + 1\<rparr>)
                     (tr2 @ [LogInfo (''Retrying in '' @ toString nextRetryIn @ ''...''),
                             Delay nextRetryIn]))
           | (False, tr2) \<Rightarrow>
               (Inr (), tr2 @
                  [LogInfo rebase_hint,
                   LogDebug (''Original error: '' @ error_toString error @ ''.'')])))"
  by pat_completeness auto
termination
  apply (relation "measure (\<lambda>(env, octokit, details, tr). nat (maximumRetries details + 1 - retryCount details))")
   apply simp
  apply (simp add: shouldRetry_def Let_def split: if_splits)
  done

declare mergeWithRetry.simps [simp del]

section \<open>The entry point\<close>

text \<open>
  Modelled from the spec: \<open>PullRequestInformationContinuousIntegrationEnd\<close> (\<open>../types\<close> is
  not part of the sources), with the fields \<open>tryMerge\<close> takes from it. The enumerations are
  the strings they are at run time; \<open>mergeStateStatus\<close> may be absent (\<open>undefined\<close>). The
  field \<open>pullRequestId\<close> is written \<open>pullRequestId'\<close>, the plain name being a field of
  \<open>PullRequestDetails\<close>.
\<close>

record PullRequestInformationContinuousIntegrationEnd =
  commitMessageHeadline :: string
  mergeableState :: string
  mergeStateStatus :: "string option"
  merged :: bool
  pullRequestId' :: string
  pullRequestNumber :: int
  pullRequestState :: string
  pullRequestTitle :: string
  reviewEdges :: "review_edge list"
  repositoryName :: string
  repositoryOwner :: string

text \<open>\<open>reviewEdges[0]\<close>: \<open>undefined\<close> for the empty array.\<close>

definition first_edge :: "review_edge list \<Rightarrow> review_edge option" where
  "first_edge es = (case es of [] \<Rightarrow> None | e # _ \<Rightarrow> Some e)"

definition tryMerge ::
  "environment \<Rightarrow> executor \<Rightarrow> int \<Rightarrow> PullRequestInformationContinuousIntegrationEnd \<Rightarrow> trace \<Rightarrow>
     ((error + unit) \<times> trace) option" where
  "tryMerge env octokit maximumRetries' pr tr =
     (let allowedAuthorName = getInput env ''GITHUB_LOGIN'';
          enabledForManualChanges = (getInput env ''ENABLED_FOR_MANUAL_CHANGES'' = ''true'')
      in
        if mergeableState pr \<noteq> ''MERGEABLE'' then
          Some (Inr (), tr @
            [LogInfo (''Pull request is not in a mergeable state: '' @ mergeableState pr @ ''.'')])
        else if merged pr then
          Some (Inr (), tr @ [LogInfo ''Pull request is already merged.''])
        else if mergeStateStatus pr \<noteq> None \<and> mergeStateStatus pr \<noteq> Some ''CLEAN'' then
          Some (Inr (), tr @
            [LogInfo (''Pull request cannot be merged cleanly. '' @
                      ''Current state: '' @
                      (case mergeStateStatus pr of None \<Rightarrow> ''undefined'' | Some s \<Rightarrow> s) @ ''.'')])
        else if pullRequestState pr \<noteq> ''OPEN'' then
          Some (Inr (), tr @
            [LogInfo (''Pull request is not open: '' @ pullRequestState pr @ ''.'')])
        else if checkPullRequestTitleForMergePreset env (pullRequestTitle pr) = False then
          Some (Inr (), tr @ [LogInfo ''Pull request version bump is not allowed by PRESET.''])
        else
          Option.bind
            (if enabledForManualChanges = False then
               getIsModified octokit
                 (PullRequestQuery (pullRequestNumber pr) (repositoryName pr) (repositoryOwner pr))
                 tr
             else Some (Inr False, tr))
            (\<lambda>modified.
               case modified of
                 (Inl e, tr1) \<Rightarrow> Some (Inl e, tr1)
               | (Inr True, tr1) \<Rightarrow>
                   Some (Inr (), tr1 @
                     [LogInfo (''Pull request changes were not made by '' @ allowedAuthorName @ ''.'')])
               | (Inr False, tr1) \<Rightarrow>
                   Some (mergeWithRetry env octokit
                     \<lparr>commitHeadline = commitMessageHeadline pr,
                      pullRequestId = pullRequestId' pr,
                      reviewEdge = first_edge (reviewEdges pr),
                      maximumRetries = maximumRetries',
                      retryCount = 1\<rparr> tr1)))"

section \<open>Observations on a run\<close>

text \<open>The mutation requests of a trace, in order.\<close>

definition mutations :: "trace \<Rightarrow> request list" where
  "mutations tr = filter is_mutation (requests tr)"

text \<open>The merge attempts and the suspensions of a trace, in order.\<close>

datatype step = Attempt | Wait int

fun attempts_and_waits :: "trace \<Rightarrow> step list" where
  "attempts_and_waits [] = []"
| "attempts_and_waits (Graphql (Mutation _ _ _) # es) = Attempt # attempts_and_waits es"
| "attempts_and_waits (Delay d # es) = Wait d # attempts_and_waits es"
| "attempts_and_waits (_ # es) = attempts_and_waits es"

text \<open>The events the modification detector can cause: commit queries and warnings.\<close>

fun detector_event :: "event \<Rightarrow> bool" where
  "detector_event (Graphql (FindPullRequestCommits _ _)) = True"
| "detector_event (LogWarning _) = True"
| "detector_event _ = False"

text \<open>
  The commit sequence as the detector sees it: \<open>iterator_take octokit n it tr\<close> asks the
  fetcher for \<open>n\<close> nodes in turn and gives them with the fetcher and the trace after the
  last; \<open>None\<close> when the fetcher does not deliver \<open>n\<close> nodes.
\<close>

fun iterator_take ::
  "executor \<Rightarrow> nat \<Rightarrow> iterator \<Rightarrow> trace \<Rightarrow> (PullRequestCommitNode list \<times> iterator \<times> trace) option" where
  "iterator_take octokit 0 it tr = Some ([], it, tr)"
| "iterator_take octokit (Suc n) it tr =
     (case iterator_next octokit it tr of
        Some (Inr (Some c, it1), tr1) \<Rightarrow>
          map_option (\<lambda>(cs, rest). (c # cs, rest)) (iterator_take octokit n it1 tr1)
      | _ \<Rightarrow> None)"

text \<open>
  The two checks of the loop body of \<open>getIsModified\<close>, as predicates on a commit: the
  signature is present and valid; and the loop goes on to the next commit (the signature
  is valid and both logins can be read and are equal).
\<close>

definition has_valid_signature :: "PullRequestCommitNode \<Rightarrow> bool" where
  "has_valid_signature commitNode =
     (case signature (commit commitNode) of None \<Rightarrow> False | Some sg \<Rightarrow> isValid sg)"

definition passes_checks :: "PullRequestCommitNode \<Rightarrow> PullRequestCommitNode \<Rightarrow> bool" where
  "passes_checks firstResult commitNode =
     (has_valid_signature commitNode \<and>
      (case author_user_login (author (commit commitNode)) of
         Inl _ \<Rightarrow> False
       | Inr l \<Rightarrow>
           (case author_user_login (author (commit firstResult)) of
              Inl _ \<Rightarrow> False
            | Inr l0 \<Rightarrow> l = l0)))"

text \<open>The mutation \<open>merge\<close> chooses for a review edge and a merge method.\<close>

definition chosen_mutation :: "review_edge option \<Rightarrow> merge_method \<Rightarrow> mutation" where
  "chosen_mutation e m =
     (case e of None \<Rightarrow> approveAndMergePullRequestMutation m | Some _ \<Rightarrow> mergePullRequestMutation m)"

text \<open>
  The gate of \<open>tryMerge\<close>, read off its chain of conditions: the first five checks pass;
  the flag that switches the modification detector off; the query the detector is called
  with; and the details handed to \<open>mergeWithRetry\<close>.
\<close>

definition first_five_pass :: "environment \<Rightarrow> PullRequestInformationContinuousIntegrationEnd \<Rightarrow> bool" where
  "first_five_pass env pr =
     (mergeableState pr = ''MERGEABLE'' \<and> \<not> merged pr \<and>
      (mergeStateStatus pr = None \<or> mergeStateStatus pr = Some ''CLEAN'') \<and>
      pullRequestState pr = ''OPEN'' \<and>
      checkPullRequestTitleForMergePreset env (pullRequestTitle pr))"

definition enabledForManualChanges :: "environment \<Rightarrow> bool" where
  "enabledForManualChanges env = (getInput env ''ENABLED_FOR_MANUAL_CHANGES'' = ''true'')"

definition detector_query :: "PullRequestInformationContinuousIntegrationEnd \<Rightarrow> pull_request_query" where
  "detector_query pr =
     PullRequestQuery (pullRequestNumber pr) (repositoryName pr) (repositoryOwner pr)"

definition merge_details :: "int \<Rightarrow> PullRequestInformationContinuousIntegrationEnd \<Rightarrow> retry_details" where
  "merge_details maximumRetries' pr =
     \<lparr>commitHeadline = commitMessageHeadline pr,
      pullRequestId = pullRequestId' pr,
      reviewEdge = first_edge (reviewEdges pr),
      maximumRetries = maximumRetries',
      retryCount = 1\<rparr>"

text \<open>
  A trace that ends in a reported outcome: its last event is a log line, or a mutation
  that the executor accepted.
\<close>

definition ends_reported :: "executor \<Rightarrow> trace \<Rightarrow> bool" where
  "ends_reported octokit tr =
     (case rev tr of
        [] \<Rightarrow> False
      | e # before \<Rightarrow>
          is_log e \<or>
          (case e of
             Graphql r \<Rightarrow>
               is_mutation r \<and>
               (case octokit (requests (rev before)) r of Inl _ \<Rightarrow> False | Inr _ \<Rightarrow> True)
           | _ \<Rightarrow> False))"

section \<open>Example inputs\<close>

definition example_env :: environment where
  "example_env =
     \<lparr>getInput = (\<lambda>n. if n = ''GITHUB_LOGIN'' then ''dependabot'' else ''''),
      parseInputMergeMethod = (\<lambda>_. SQUASH),
      checkPullRequestTitleForMergePreset = (\<lambda>_. True),
      EXPONENTIAL_BACKOFF = 2,
      MINIMUM_WAIT_TIME = 1000\<rparr>"

definition base_modified :: error where
  "base_modified =
     \<lparr>name = ''Error'', message = ''Base branch was modified. Review and try the merge again.''\<rparr>"

text \<open>An executor that rejects every request with the transient error.\<close>

definition always_modified :: executor where
  "always_modified = (\<lambda>earlier r. Inl base_modified)"

definition example_details :: retry_details where
  "example_details =
     \<lparr>commitHeadline = ''Bump lodash'', pullRequestId = ''PR_1'', reviewEdge = None,
      maximumRetries = 2, retryCount = 1\<rparr>"

definition example_query :: pull_request_query where
  "example_query = PullRequestQuery 7 ''repo'' ''owner''"

definition signed_by :: "string \<Rightarrow> PullRequestCommitNode" where
  "signed_by l =
     \<lparr>commit = \<lparr>author = Some \<lparr>user = Some \<lparr>login = l\<rparr>\<rparr>,
                signature = Some \<lparr>isValid = True\<rparr>\<rparr>\<rparr>"

definition unsigned_by :: "string \<Rightarrow> PullRequestCommitNode" where
  "unsigned_by l =
     \<lparr>commit = \<lparr>author = Some \<lparr>user = Some \<lparr>login = l\<rparr>\<rparr>, signature = None\<rparr>\<rparr>"

text \<open>A signed commit whose author is unknown to the platform.\<close>

definition signed_by_nobody :: PullRequestCommitNode where
  "signed_by_nobody = \<lparr>commit = \<lparr>author = None, signature = Some \<lparr>isValid = True\<rparr>\<rparr>\<rparr>"

definition commits_page ::
  "PullRequestCommitNode list \<Rightarrow> string option \<Rightarrow> bool \<Rightarrow> GraphQlQueryResponseData" where
  "commits_page ns c h =
     \<lparr>repository = Some \<lparr>pullRequest = Some
        \<lparr>commits = \<lparr>nodes = ns, pageInfo = \<lparr>endCursor = c, hasNextPage = h\<rparr>\<rparr>\<rparr>\<rparr>\<rparr>"

text \<open>An executor with all commits on one page, which accepts every mutation.\<close>

definition single_page :: "PullRequestCommitNode list \<Rightarrow> executor" where
  "single_page ns = (\<lambda>earlier r. Inr (commits_page ns None False))"

text \<open>
  An executor with three pages of commits: the second commit, on the first page, is by
  another author.
\<close>

definition three_pages :: executor where
  "three_pages = (\<lambda>earlier r.
     case r of
       FindPullRequestCommits q None \<Rightarrow>
         Inr (commits_page [signed_by ''dependabot'', signed_by ''mallory''] (Some ''p1'') True)
     | FindPullRequestCommits q (Some c) \<Rightarrow>
         (if c = ''p1'' then
            Inr (commits_page [signed_by ''dependabot'', signed_by ''dependabot''] (Some ''p2'') True)
          else Inr (commits_page [signed_by ''dependabot''] None False))
     | Mutation m h i \<Rightarrow> Inr (commits_page [] None False))"

text \<open>
  An executor with one commit on each of three pages: the second commit, on the second
  page, is by another author.
\<close>

definition one_per_page :: executor where
  "one_per_page = (\<lambda>earlier r.
     case r of
       FindPullRequestCommits q None \<Rightarrow>
         Inr (commits_page [signed_by ''dependabot''] (Some ''p1'') True)
     | FindPullRequestCommits q (Some c) \<Rightarrow>
         (if c = ''p1'' then Inr (commits_page [signed_by ''mallory''] (Some ''p2'') True)
          else Inr (commits_page [signed_by ''dependabot''] None False))
     | Mutation m h i \<Rightarrow> Inr (commits_page [] None False))"

text \<open>An executor that cannot reach the platform.\<close>

definition unreachable :: executor where
  "unreachable = (\<lambda>earlier r. Inl \<lparr>name = ''HttpError'', message = ''getaddrinfo ENOTFOUND''\<rparr>)"

text \<open>A pull request that passes the first five checks of \<open>tryMerge\<close>.\<close>

definition example_pr :: PullRequestInformationContinuousIntegrationEnd where
  "example_pr =
     \<lparr>commitMessageHeadline = ''Bump lodash'',
      mergeableState = ''MERGEABLE'',
      mergeStateStatus = Some ''CLEAN'',
      merged = False,
      pullRequestId' = ''PR_1'',
      pullRequestNumber = 7,
      pullRequestState = ''OPEN'',
      pullRequestTitle = ''bump lodash from 4.17.20 to 4.17.21'',
      reviewEdges = [],
      repositoryName = ''repo'',
      repositoryOwner = ''owner''\<rparr>"

definition approved :: review_edge where
  "approved = \<lparr>node = \<lparr>state = ''APPROVED''\<rparr>\<rparr>"

definition changes_requested :: review_edge where
  "changes_requested = \<lparr>node = \<lparr>state = ''CHANGES_REQUESTED''\<rparr>\<rparr>"

section \<open>Properties\<close>

lemma requests_append [simp]: "requests (xs @ ys) = requests xs @ requests ys"
  by (induction xs rule: requests.induct) simp_all

lemma parses_append [simp]: "parses (xs @ ys) = parses xs @ parses ys"
  by (induction xs rule: parses.induct) simp_all

lemma attempts_and_waits_append [simp]:
  "attempts_and_waits (xs @ ys) = attempts_and_waits xs @ attempts_and_waits ys"
  by (induction xs rule: attempts_and_waits.induct) simp_all

lemma mutations_append [simp]: "mutations (xs @ ys) = mutations xs @ mutations ys"
  by (simp add: mutations_def)

text \<open>
  The fetcher is lazy: a node in the buffer is delivered without a query, and an empty
  buffer costs one query for the next page.
\<close>

lemma iterator_next_buffered:
  "buffer it = c # cs \<Longrightarrow> iterator_next octokit it tr = Some (Inr (Some c, it\<lparr>buffer := cs\<rparr>), tr)"
  by (subst iterator_next.simps) simp

lemma iterator_next_done:
  "buffer it = [] \<Longrightarrow> \<not> pending it \<Longrightarrow> iterator_next octokit it tr = Some (Inr (None, it), tr)"
  by (subst iterator_next.simps) simp

lemma iterator_next_fetches:
  assumes "buffer it = []" and "pending it"
    and "octokit (requests tr) (FindPullRequestCommits (parameters it) (cursor it)) = Inr response"
    and "extractListFunction response = Inr (Some list)"
    and "nodes list = c # cs"
  shows "iterator_next octokit it tr =
     Some (Inr (Some c, it\<lparr>buffer := cs, cursor := endCursor (pageInfo list),
                             pending := hasNextPage (pageInfo list)\<rparr>),
           tr @ [Graphql (FindPullRequestCommits (parameters it) (cursor it))])"
  using assms
  by (subst iterator_next.simps) (simp add: graphql_def iterator_next_buffered)

lemma iterator_next_events:
  "iterator_next octokit it tr = Some y \<Longrightarrow> \<exists>new. snd y = tr @ new \<and> list_all detector_event new"
proof (induct rule: iterator_next.raw_induct[rotated 1, consumes 1])
  case (1 next' octokit it tr y)
  show ?case
  proof (cases "buffer it")
    case Nil
    show ?thesis
    proof (cases "pending it")
      case False
      with Nil 1(2) show ?thesis by auto
    next
      case True
      let ?q = "FindPullRequestCommits (parameters it) (cursor it)"
      show ?thesis
      proof (cases "octokit (requests tr) ?q")
        case (Inl e)
        with Nil True 1(2) show ?thesis by (auto simp: graphql_def)
      next
        case (Inr response)
        show ?thesis
        proof (cases "extractListFunction response")
          case (Inl e)
          with Inr Nil True 1(2) show ?thesis by (auto simp: graphql_def)
        next
          case r: (Inr l)
          show ?thesis
          proof (cases l)
            case None
            with r Inr Nil True 1(2) show ?thesis by (auto simp: graphql_def)
          next
            case (Some list)
            with r Inr Nil True 1(2)
            have "next' octokit (it\<lparr>buffer := nodes list, cursor := endCursor (pageInfo list),
                     pending := hasNextPage (pageInfo list)\<rparr>) (tr @ [Graphql ?q]) = Some y"
              by (simp add: graphql_def)
            from 1(1)[OF this] obtain new where "snd y = (tr @ [Graphql ?q]) @ new" "list_all detector_event new"
              by blast
            then show ?thesis by (intro exI[of _ "Graphql ?q # new"]) simp
          qed
        qed
      qed
    qed
  next
    case (Cons c cs)
    with 1(2) show ?thesis by auto
  qed
qed

lemma getIsModified_loop_events:
  assumes "getIsModified_loop octokit first it tr = Some y"
  shows "\<exists>new. snd y = tr @ new \<and> list_all detector_event new"
  using assms
proof (induct rule: getIsModified_loop.raw_induct[rotated 1, consumes 1])
  case (1 loop octokit first it tr y)
  from 1(2) obtain step where s: "iterator_next octokit it tr = Some step"
    and b: "(case step of
         (Inl e, tr1) \<Rightarrow> Some (Inl e, tr1)
       | (Inr (None, it1), tr1) \<Rightarrow> Some (Inr False, tr1)
       | (Inr (Some commitNode, it1), tr1) \<Rightarrow>
           (case signature (commit commitNode) of
              None \<Rightarrow>
                Some (Inr True, tr1 @
                  [LogWarning ''Commit signature not present or invalid, regarding PR as modified.''])
            | Some sig \<Rightarrow>
                if \<not> isValid sig then
                  Some (Inr True, tr1 @
                    [LogWarning ''Commit signature not present or invalid, regarding PR as modified.''])
                else
                  (case author_user_login (author (commit commitNode)) of
                     Inl e \<Rightarrow> Some (Inl e, tr1)
                   | Inr l \<Rightarrow>
                       (case author_user_login (author (commit first)) of
                          Inl e \<Rightarrow> Some (Inl e, tr1)
                        | Inr l0 \<Rightarrow>
                            if l \<noteq> l0 then Some (Inr True, tr1)
                            else loop octokit first it1 tr1)))) = Some y"
    by (auto simp: bind_eq_Some_conv)
  from iterator_next_events[OF s] obtain n1 where n1: "snd step = tr @ n1" "list_all detector_event n1"
    by blast
  show ?case
    using b n1 by (auto split: prod.splits sum.splits option.splits if_splits dest!: 1(1))
qed

lemma getIsModified_events:
  assumes "getIsModified octokit query tr = Some y"
  shows "\<exists>new. snd y = tr @ new \<and> list_all detector_event new"
proof -
  from assms obtain step where s: "iterator_next octokit (makeGraphqlIterator query) tr = Some step"
    and b: "(case step of
         (Inl e, tr1) \<Rightarrow> Some (Inl e, tr1)
       | (Inr (None, it1), tr1) \<Rightarrow>
           Some (Inr True, tr1 @ [LogWarning ''Could not find PR commits, aborting.''])
       | (Inr (Some first, it1), tr1) \<Rightarrow> getIsModified_loop octokit first it1 tr1) = Some y"
    by (auto simp: getIsModified_def bind_eq_Some_conv)
  from iterator_next_events[OF s] obtain n1 where n1: "snd step = tr @ n1" "list_all detector_event n1"
    by blast
  show ?thesis
    using b n1 by (auto split: prod.splits sum.splits option.splits dest!: getIsModified_loop_events)
qed

lemma detector_event_mutations: "list_all detector_event new \<Longrightarrow> mutations new = []"
  by (induction new rule: requests.induct) (auto simp: mutations_def elim: detector_event.elims)

lemma upt_plus_Suc: "[k ..< k + Suc n] = k # [Suc k ..< Suc k + n]"
  using upt_conv_Cons[of k "k + Suc n"] by simp

lemma merge_unfold:
  "merge env octokit d tr =
     (let m = parseInputMergeMethod env (length (parses tr));
          r = Mutation (chosen_mutation (reviewEdge d) m) (commitHeadline d) (pullRequestId d)
      in (case octokit (requests tr) r of Inl e \<Rightarrow> Inl e | Inr _ \<Rightarrow> Inr (),
          tr @ [ParsedMergeMethod m, Graphql r]))"
  by (simp add: merge_def call_parseInputMergeMethod_def graphql_def chosen_mutation_def Let_def
           split: sum.splits option.splits)

lemma mergeWithRetry_unfold:
  "mergeWithRetry env octokit d tr =
     (let m = parseInputMergeMethod env (length (parses tr));
          r = Mutation (chosen_mutation (reviewEdge d) m) (commitHeadline d) (pullRequestId d);
          tr1 = tr @ [ParsedMergeMethod m, Graphql r]
      in case octokit (requests tr) r of
           Inr _ \<Rightarrow> (Inr (), tr1)
         | Inl e \<Rightarrow>
             if string_includes (message e) ''Base branch was modified.'' then
               if retryCount d > maximumRetries d then
                 (Inr (), tr1 @
                    [LogInfo (''Unable to merge after '' @ toString (retryCount d) @
                              '' attempts. Retries exhausted.''),
                     LogInfo rebase_hint,
                     LogDebug (''Original error: '' @ error_toString e @ ''.'')])
               else
                 mergeWithRetry env octokit (d\<lparr>retryCount := retryCount d + 1\<rparr>)
                   (tr1 @
                      [LogInfo (''Retrying in '' @
                         toString (retryCount d ^ EXPONENTIAL_BACKOFF env * MINIMUM_WAIT_TIME env) @
                         ''...''),
                       Delay (retryCount d ^ EXPONENTIAL_BACKOFF env * MINIMUM_WAIT_TIME env)])
             else
               (Inr (), tr1 @
                  [LogInfo rebase_hint,
                   LogDebug (''Original error: '' @ error_toString e @ ''.'')]))"
  by (subst mergeWithRetry.simps)
     (simp add: merge_unfold shouldRetry_def Let_def split: sum.splits)

lemma mergeWithRetry_returns: "fst (mergeWithRetry env octokit d tr) = Inr ()"
proof (induction "nat (maximumRetries d + 1 - retryCount d)" arbitrary: d tr rule: less_induct)
  case less
  show ?case
    by (subst mergeWithRetry_unfold) (auto simp: Let_def split: sum.splits intro!: less)
qed

lemma mergeWithRetry_requests:
  "\<exists>new. snd (mergeWithRetry env octokit d tr) = tr @ new \<and>
     requests new =
       map (\<lambda>m. Mutation (chosen_mutation (reviewEdge d) m) (commitHeadline d) (pullRequestId d))
         (parses new) \<and>
     parses new =
       map (parseInputMergeMethod env) [length (parses tr) ..< length (parses tr) + length (parses new)] \<and>
     parses new \<noteq> []"
proof (induction "nat (maximumRetries d + 1 - retryCount d)" arbitrary: d tr rule: less_induct)
  case less
  let ?m = "parseInputMergeMethod env (length (parses tr))"
  let ?r = "Mutation (chosen_mutation (reviewEdge d) ?m) (commitHeadline d) (pullRequestId d)"
  let ?tr1 = "tr @ [ParsedMergeMethod ?m, Graphql ?r]"
  show ?case
  proof (cases "octokit (requests tr) ?r")
    case (Inr x)
    then show ?thesis
      by (subst mergeWithRetry_unfold) (simp add: Let_def)
  next
    case (Inl e)
    show ?thesis
    proof (cases "string_includes (message e) ''Base branch was modified.'' \<and> \<not> retryCount d > maximumRetries d")
      case False
      with Inl show ?thesis
        by (subst mergeWithRetry_unfold) (auto simp: Let_def)
    next
      case True
      let ?d = "d\<lparr>retryCount := retryCount d + 1\<rparr>"
      let ?n = "retryCount d ^ EXPONENTIAL_BACKOFF env * MINIMUM_WAIT_TIME env"
      let ?tr2 = "?tr1 @ [LogInfo (''Retrying in '' @ toString ?n @ ''...''), Delay ?n]"
      have step: "mergeWithRetry env octokit d tr = mergeWithRetry env octokit ?d ?tr2"
        using Inl True by (subst mergeWithRetry_unfold) (simp add: Let_def)
      have "nat (maximumRetries ?d + 1 - retryCount ?d) < nat (maximumRetries d + 1 - retryCount d)"
        using True by simp
      from less[OF this, of ?tr2] obtain new where
        new: "snd (mergeWithRetry env octokit ?d ?tr2) = ?tr2 @ new"
          "requests new =
             map (\<lambda>m. Mutation (chosen_mutation (reviewEdge d) m) (commitHeadline d) (pullRequestId d))
               (parses new)"
          "parses new =
             map (parseInputMergeMethod env) [Suc (length (parses tr)) ..< Suc (length (parses tr)) + length (parses new)]"
        by auto
      let ?pre = "[ParsedMergeMethod ?m, Graphql ?r,
                   LogInfo (''Retrying in '' @ toString ?n @ ''...''), Delay ?n]"
      have p: "parses (?pre @ new) = ?m # parses new"
        by simp
      have u: "[length (parses tr) ..< length (parses tr) + length (?m # parses new)] =
               length (parses tr) # [Suc (length (parses tr)) ..< Suc (length (parses tr)) + length (parses new)]"
        unfolding length_Cons by (rule upt_plus_Suc)
      have a: "snd (mergeWithRetry env octokit d tr) = tr @ ?pre @ new"
        unfolding step new(1) by simp
      have b: "requests (?pre @ new) =
                 map (\<lambda>m. Mutation (chosen_mutation (reviewEdge d) m) (commitHeadline d) (pullRequestId d))
                   (parses (?pre @ new))"
        using new(2) by simp
      have c: "parses (?pre @ new) =
                 map (parseInputMergeMethod env)
                   [length (parses tr) ..< length (parses tr) + length (parses (?pre @ new))]"
        unfolding p u using new(3) by (simp only: list.map)
      have d: "parses (?pre @ new) \<noteq> []"
        by simp
      from a b c d show ?thesis
        by blast
    qed
  qed
qed

lemma mergeWithRetry_always_modified:
  assumes fails: "\<And>earlier r. is_mutation r \<Longrightarrow>
            \<exists>e. octokit earlier r = Inl e \<and> string_includes (message e) ''Base branch was modified.''"
    and bound: "retryCount d \<le> maximumRetries d + 1"
  shows "\<exists>pre e. snd (mergeWithRetry env octokit d tr) =
            tr @ pre @
              [LogInfo (''Unable to merge after '' @ toString (maximumRetries d + 1) @
                        '' attempts. Retries exhausted.''),
               LogInfo rebase_hint,
               LogDebug (''Original error: '' @ error_toString e @ ''.'')] \<and>
          attempts_and_waits pre =
            concat (map (\<lambda>k. [Attempt, Wait (k ^ EXPONENTIAL_BACKOFF env * MINIMUM_WAIT_TIME env)])
                      [retryCount d .. maximumRetries d]) @ [Attempt]"
  using bound
proof (induction "nat (maximumRetries d + 1 - retryCount d)" arbitrary: d tr rule: less_induct)
  case less
  let ?m = "parseInputMergeMethod env (length (parses tr))"
  let ?r = "Mutation (chosen_mutation (reviewEdge d) ?m) (commitHeadline d) (pullRequestId d)"
  let ?tr1 = "tr @ [ParsedMergeMethod ?m, Graphql ?r]"
  from fails[of ?r "requests tr"] obtain e where
    e: "octokit (requests tr) ?r = Inl e" "string_includes (message e) ''Base branch was modified.''"
    by auto
  show ?case
  proof (cases "retryCount d > maximumRetries d")
    case True
    with less.prems have rc: "retryCount d = maximumRetries d + 1" by simp
    have "snd (mergeWithRetry env octokit d tr) =
            tr @ [ParsedMergeMethod ?m, Graphql ?r] @
              [LogInfo (''Unable to merge after '' @ toString (maximumRetries d + 1) @
                        '' attempts. Retries exhausted.''),
               LogInfo rebase_hint,
               LogDebug (''Original error: '' @ error_toString e @ ''.'')]"
      using e True rc by (subst mergeWithRetry_unfold) (simp add: Let_def)
    moreover have "attempts_and_waits [ParsedMergeMethod ?m, Graphql ?r] =
            concat (map (\<lambda>k. [Attempt, Wait (k ^ EXPONENTIAL_BACKOFF env * MINIMUM_WAIT_TIME env)])
                      [retryCount d .. maximumRetries d]) @ [Attempt]"
      using True by simp
    ultimately show ?thesis by blast
  next
    case False
    let ?d = "d\<lparr>retryCount := retryCount d + 1\<rparr>"
    let ?n = "retryCount d ^ EXPONENTIAL_BACKOFF env * MINIMUM_WAIT_TIME env"
    let ?step = "[ParsedMergeMethod ?m, Graphql ?r,
                  LogInfo (''Retrying in '' @ toString ?n @ ''...''), Delay ?n]"
    have step: "mergeWithRetry env octokit d tr = mergeWithRetry env octokit ?d (tr @ ?step)"
      using e False by (subst mergeWithRetry_unfold) (simp add: Let_def)
    have "nat (maximumRetries ?d + 1 - retryCount ?d) < nat (maximumRetries d + 1 - retryCount d)"
      and "retryCount ?d \<le> maximumRetries ?d + 1"
      using False by simp_all
    from less.hyps[OF this, of "tr @ ?step"] obtain pre e' where
      ih: "snd (mergeWithRetry env octokit ?d (tr @ ?step)) =
             (tr @ ?step) @ pre @
               [LogInfo (''Unable to merge after '' @ toString (maximumRetries d + 1) @
                         '' attempts. Retries exhausted.''),
                LogInfo rebase_hint,
                LogDebug (''Original error: '' @ error_toString e' @ ''.'')]"
          "attempts_and_waits pre =
             concat (map (\<lambda>k. [Attempt, Wait (k ^ EXPONENTIAL_BACKOFF env * MINIMUM_WAIT_TIME env)])
                       [retryCount d + 1 .. maximumRetries d]) @ [Attempt]"
      by auto
    have up: "[retryCount d .. maximumRetries d] = retryCount d # [retryCount d + 1 .. maximumRetries d]"
      using False by (simp add: upto_rec1)
    have "snd (mergeWithRetry env octokit d tr) =
            tr @ (?step @ pre) @
              [LogInfo (''Unable to merge after '' @ toString (maximumRetries d + 1) @
                        '' attempts. Retries exhausted.''),
               LogInfo rebase_hint,
               LogDebug (''Original error: '' @ error_toString e' @ ''.'')]"
      unfolding step ih(1) by simp
    moreover have "attempts_and_waits (?step @ pre) =
            concat (map (\<lambda>k. [Attempt, Wait (k ^ EXPONENTIAL_BACKOFF env * MINIMUM_WAIT_TIME env)])
                      [retryCount d .. maximumRetries d]) @ [Attempt]"
      unfolding up using ih(2) by simp
    ultimately show ?thesis by blast
  qed
qed

lemma length_mutations_attempts:
  "length (mutations tr) = length (filter (\<lambda>s. s = Attempt) (attempts_and_waits tr))"
  by (induction tr rule: attempts_and_waits.induct) (simp_all add: mutations_def)

lemma attempts_in_schedule:
  "length (filter (\<lambda>s. s = Attempt) (concat (map (\<lambda>k. [Attempt, Wait (f k)]) ks))) = length ks"
  by (induction ks) simp_all


subsection \<open>C4: retries against a base branch that keeps moving\<close>

text \<open>
  C4. When every merge mutation is rejected with an error whose message contains
  "Base branch was modified.", \<open>mergeWithRetry\<close> entered with \<open>retryCount = 1\<close> and a bound
  \<open>maximumRetries \<ge> 0\<close> makes exactly \<open>maximumRetries + 1\<close> attempts, suspends for
  \<open>k ^ EXPONENTIAL_BACKOFF * MINIMUM_WAIT_TIME\<close> after the failure of attempt \<open>k\<close> for
  \<open>k = 1, \<dots>, maximumRetries\<close>, then stops: it logs that retries are exhausted after
  \<open>maximumRetries + 1\<close> attempts, the rebase hint and the original error, and returns
  normally. For \<open>maximumRetries = 2\<close> these are three attempts with the suspensions
  \<open>1 ^ E * W\<close> and \<open>2 ^ E * W\<close> between them.
\<close>

theorem mergeWithRetry_gives_up_after_maximum:
  assumes "\<forall>earlier r. is_mutation r \<longrightarrow>
            (\<exists>e. octokit earlier r = Inl e \<and> string_includes (message e) ''Base branch was modified.'')"
    and "retryCount d = 1" and "0 \<le> maximumRetries d"
  shows "\<exists>pre e. mergeWithRetry env octokit d tr =
            (Inr (), tr @ pre @
              [LogInfo (''Unable to merge after '' @ toString (maximumRetries d + 1) @
                        '' attempts. Retries exhausted.''),
               LogInfo rebase_hint,
               LogDebug (''Original error: '' @ error_toString e @ ''.'')]) \<and>
          attempts_and_waits pre =
            concat (map (\<lambda>k. [Attempt, Wait (k ^ EXPONENTIAL_BACKOFF env * MINIMUM_WAIT_TIME env)])
                      [1 .. maximumRetries d]) @ [Attempt] \<and>
          length (mutations pre) = nat (maximumRetries d + 1) \<and>
          (maximumRetries d = 2 \<longrightarrow>
             attempts_and_waits pre =
               [Attempt, Wait (1 ^ EXPONENTIAL_BACKOFF env * MINIMUM_WAIT_TIME env),
                Attempt, Wait (2 ^ EXPONENTIAL_BACKOFF env * MINIMUM_WAIT_TIME env),
                Attempt])"
proof -
  from assms(1) have fails: "\<And>earlier r. is_mutation r \<Longrightarrow>
      \<exists>e. octokit earlier r = Inl e \<and> string_includes (message e) ''Base branch was modified.''"
    by blast
  from assms(2,3) have "retryCount d \<le> maximumRetries d + 1"
    by simp
  from mergeWithRetry_always_modified[of octokit d env tr, OF fails this] assms(2)
  obtain pre e where
    t: "snd (mergeWithRetry env octokit d tr) =
          tr @ pre @
            [LogInfo (''Unable to merge after '' @ toString (maximumRetries d + 1) @
                      '' attempts. Retries exhausted.''),
             LogInfo rebase_hint,
             LogDebug (''Original error: '' @ error_toString e @ ''.'')]"
    and s: "attempts_and_waits pre =
          concat (map (\<lambda>k. [Attempt, Wait (k ^ EXPONENTIAL_BACKOFF env * MINIMUM_WAIT_TIME env)])
                    [1 .. maximumRetries d]) @ [Attempt]"
    by auto
  have "length (mutations pre) = nat (maximumRetries d + 1)"
    unfolding length_mutations_attempts s using assms(3)
    by (simp add: attempts_in_schedule nat_add_distrib)
  moreover have "mergeWithRetry env octokit d tr =
            (Inr (), tr @ pre @
              [LogInfo (''Unable to merge after '' @ toString (maximumRetries d + 1) @
                        '' attempts. Retries exhausted.''),
               LogInfo rebase_hint,
               LogDebug (''Original error: '' @ error_toString e @ ''.'')])"
    using t mergeWithRetry_returns[of env octokit d tr] by (simp add: prod_eq_iff)
  moreover have "attempts_and_waits pre =
               [Attempt, Wait (1 ^ EXPONENTIAL_BACKOFF env * MINIMUM_WAIT_TIME env),
                Attempt, Wait (2 ^ EXPONENTIAL_BACKOFF env * MINIMUM_WAIT_TIME env),
                Attempt]"
    if "maximumRetries d = 2"
    using s that by (simp add: upto_rec1)
  ultimately show ?thesis
    using s by blast
qed


text \<open>
  The instance \<open>maximumRetries = 2\<close>, with \<open>EXPONENTIAL_BACKOFF = 2\<close> and
  \<open>MINIMUM_WAIT_TIME = 1000\<close>: three attempts, suspensions of 1000 and 4000.
\<close>

theorem mergeWithRetry_gives_up_after_maximum_witness:
  "string_includes (message base_modified) ''Base branch was modified.'' \<and>
   retryCount example_details = 1 \<and> 0 \<le> maximumRetries example_details \<and>
   (\<exists>pre e. mergeWithRetry example_env always_modified example_details [] =
      (Inr (), pre @
         [LogInfo ''Unable to merge after 3 attempts. Retries exhausted.'',
          LogInfo rebase_hint,
          LogDebug (''Original error: '' @ error_toString e @ ''.'')]) \<and>
      attempts_and_waits pre = [Attempt, Wait 1000, Attempt, Wait 4000, Attempt] \<and>
      length (mutations pre) = 3)"
proof -
  have h1: "\<forall>earlier r. is_mutation r \<longrightarrow>
      (\<exists>e. always_modified earlier r = Inl e \<and>
           string_includes (message e) ''Base branch was modified.'')"
    by (simp add: always_modified_def base_modified_def)
  have h2: "retryCount example_details = 1" and h3: "0 \<le> maximumRetries example_details"
    by (simp_all add: example_details_def)
  have m: "maximumRetries example_details = 2"
    by (simp add: example_details_def)
  have three: "toString 3 = ''3''"
    by code_simp
  have sched: "concat (map (\<lambda>k. [Attempt, Wait (k ^ EXPONENTIAL_BACKOFF example_env *
                                             MINIMUM_WAIT_TIME example_env)]) [1 .. 2]) @ [Attempt] =
               [Attempt, Wait 1000, Attempt, Wait 4000, Attempt]"
    by (simp add: example_env_def upto_rec1)
  show ?thesis
    using mergeWithRetry_gives_up_after_maximum[OF h1 h2 h3, of example_env "[]"] h2 h3
    by (auto simp: m three sched base_modified_def)
qed

lemma iterator_take_Suc:
  assumes "iterator_take octokit (Suc n) it tr = Some (xs, r)"
  obtains c cs it1 tr1 where "xs = c # cs"
    and "iterator_next octokit it tr = Some (Inr (Some c, it1), tr1)"
    and "iterator_take octokit n it1 tr1 = Some (cs, r)"
  using assms
  by (auto split: option.splits prod.splits sum.splits)

lemma iterator_take_snoc:
  "iterator_take octokit (Suc n) it tr = Some (cs @ [c], it', tr') \<Longrightarrow>
   \<exists>it1 tr1. iterator_take octokit n it tr = Some (cs, it1, tr1) \<and>
             iterator_next octokit it1 tr1 = Some (Inr (Some c, it'), tr')"
proof (induction n arbitrary: it tr cs)
  case 0
  then show ?case
    by (auto split: option.splits prod.splits sum.splits)
next
  case (Suc n)
  from Suc.prems obtain x xs it1 tr1 where
    x: "cs @ [c] = x # xs" "iterator_next octokit it tr = Some (Inr (Some x, it1), tr1)"
       "iterator_take octokit (Suc n) it1 tr1 = Some (xs, it', tr')"
    by (rule iterator_take_Suc)
  from x(3) have "xs \<noteq> []"
    by (auto split: option.splits prod.splits sum.splits)
  with x(1) obtain ys where ys: "cs = x # ys" "xs = ys @ [c]"
    by (cases cs) auto
  from Suc.IH[of it1 tr1 ys] x(3) ys(2) obtain it2 tr2 where
    "iterator_take octokit n it1 tr1 = Some (ys, it2, tr2)"
    "iterator_next octokit it2 tr2 = Some (Inr (Some c, it'), tr')"
    by auto
  with x(2) ys(1) show ?case
    by simp
qed

lemma getIsModified_loop_passes:
  assumes "iterator_next octokit it tr = Some (Inr (Some c, it1), tr1)" and "passes_checks first c"
  shows "getIsModified_loop octokit first it tr = getIsModified_loop octokit first it1 tr1"
  using assms
  by (subst getIsModified_loop.simps)
     (auto simp: passes_checks_def has_valid_signature_def split: option.splits sum.splits)

lemma getIsModified_loop_skips:
  "iterator_take octokit n it tr = Some (cs, it', tr') \<Longrightarrow> list_all (passes_checks first) cs \<Longrightarrow>
   getIsModified_loop octokit first it tr = getIsModified_loop octokit first it' tr'"
proof (induction n arbitrary: it tr cs)
  case 0
  then show ?case by simp
next
  case (Suc n)
  from Suc.prems(1) obtain x xs it1 tr1 where
    x: "cs = x # xs" "iterator_next octokit it tr = Some (Inr (Some x, it1), tr1)"
       "iterator_take octokit n it1 tr1 = Some (xs, it', tr')"
    by (rule iterator_take_Suc)
  with Suc.prems(2) have "passes_checks first x" "list_all (passes_checks first) xs"
    by simp_all
  with x Suc.IH[of it1 tr1 xs] getIsModified_loop_passes[of octokit it tr x it1 tr1 first]
  show ?case by simp
qed

lemma getIsModified_first:
  "iterator_next octokit (makeGraphqlIterator query) tr = Some (Inr (Some first, it1), tr1) \<Longrightarrow>
   getIsModified octokit query tr = getIsModified_loop octokit first it1 tr1"
  by (simp add: getIsModified_def)

lemma getIsModified_loop_stops:
  assumes "iterator_next octokit it tr = Some (Inr (Some c, it1), tr1)"
  shows "getIsModified_loop octokit first it tr =
     (if \<not> has_valid_signature c then
        Some (Inr True, tr1 @
          [LogWarning ''Commit signature not present or invalid, regarding PR as modified.''])
      else
        (case author_user_login (author (commit c)) of
           Inl e \<Rightarrow> Some (Inl e, tr1)
         | Inr l \<Rightarrow>
             (case author_user_login (author (commit first)) of
                Inl e \<Rightarrow> Some (Inl e, tr1)
              | Inr l0 \<Rightarrow>
                  if l \<noteq> l0 then Some (Inr True, tr1)
                  else getIsModified_loop octokit first it1 tr1)))"
  using assms
  by (subst getIsModified_loop.simps)
     (auto simp: has_valid_signature_def split: option.splits sum.splits)

subsection \<open>C1: the signature of the first commit\<close>

text \<open>
  C1. The claim asks that a commit sequence whose first commit has no signature makes
  \<open>getIsModified\<close> return true. The first commit is taken from the fetcher by
  \<open>iterator.next()\<close> before the loop, and the loop goes on with the same single-pass
  fetcher: it starts at the second commit, so the signature of the first one is never
  read. For a pull request whose only commit is unsigned, \<open>getIsModified\<close> returns false
  after one query and without a warning.
\<close>

theorem getIsModified_unsigned_first_commit:
  "getIsModified (single_page [unsigned_by ''dependabot'']) example_query [] =
     Some (Inr False, [Graphql (FindPullRequestCommits example_query None)])"
  by code_simp

subsection \<open>C3: a commit without an author\<close>

text \<open>
  C3, as the claim states it, fails: with a signed first commit and a signed second commit
  whose author is \<open>null\<close>, reading \<open>author.user\<close> faults, and \<open>getIsModified\<close> fails with that
  fault instead of returning true.
\<close>

theorem getIsModified_absent_author_counterexample:
  "getIsModified (single_page [signed_by ''dependabot'', signed_by_nobody]) example_query [] =
     Some (Inl (TypeError ''Cannot read properties of null (reading 'user')''),
           [Graphql (FindPullRequestCommits example_query None)])"
  by code_simp

text \<open>
  C3, amended. Let the fetcher deliver \<open>firstResult\<close>, then commits \<open>cs\<close> that all pass the
  checks of the loop, then a commit whose author, or whose author's user, is absent. If
  the signature of that commit is absent or invalid, \<open>getIsModified\<close> returns true with
  the warning, without reading the author. If its signature is valid, reading the login
  faults and \<open>getIsModified\<close> fails with a \<open>TypeError\<close>: there is no guard for an absent
  author.
\<close>

theorem getIsModified_absent_author:
  assumes "iterator_take octokit (Suc (Suc (length cs))) (makeGraphqlIterator query) tr =
             Some (firstResult # cs @ [commitNode], it', tr')"
    and "list_all (passes_checks firstResult) cs"
    and "author (commit commitNode) = None \<or>
         (\<exists>a. author (commit commitNode) = Some a \<and> user a = None)"
  shows "if has_valid_signature commitNode
         then \<exists>m. getIsModified octokit query tr = Some (Inl (TypeError m), tr')
         else getIsModified octokit query tr =
                Some (Inr True, tr' @
                  [LogWarning ''Commit signature not present or invalid, regarding PR as modified.''])"
proof -
  from assms(1) obtain c cs0 it1 tr1 where
    "firstResult # cs @ [commitNode] = c # cs0"
    and "iterator_next octokit (makeGraphqlIterator query) tr = Some (Inr (Some c, it1), tr1)"
    and "iterator_take octokit (Suc (length cs)) it1 tr1 = Some (cs0, it', tr')"
    by (rule iterator_take_Suc)
  then have
    n1: "iterator_next octokit (makeGraphqlIterator query) tr = Some (Inr (Some firstResult, it1), tr1)"
    and rest: "iterator_take octokit (Suc (length cs)) it1 tr1 = Some (cs @ [commitNode], it', tr')"
    by simp_all
  from iterator_take_snoc[OF rest] obtain it2 tr2 where
    t: "iterator_take octokit (length cs) it1 tr1 = Some (cs, it2, tr2)"
    and n: "iterator_next octokit it2 tr2 = Some (Inr (Some commitNode, it'), tr')"
    by blast
  have eq: "getIsModified octokit query tr = getIsModified_loop octokit firstResult it2 tr2"
    using getIsModified_first[OF n1] getIsModified_loop_skips[OF t assms(2)] by simp
  from assms(3) obtain m where "author_user_login (author (commit commitNode)) = Inl (TypeError m)"
    by (auto simp: author_user_login_def)
  then show ?thesis
    unfolding eq getIsModified_loop_stops[OF n] by auto
qed

theorem getIsModified_absent_author_witness:
  "iterator_take (single_page [signed_by ''dependabot'', signed_by ''dependabot'', signed_by_nobody])
       (Suc (Suc (length [signed_by ''dependabot''])))
       (makeGraphqlIterator example_query) [] =
     Some (signed_by ''dependabot'' # [signed_by ''dependabot''] @ [signed_by_nobody],
           \<lparr>parameters = example_query, buffer = [], cursor = None, pending = False\<rparr>,
           [Graphql (FindPullRequestCommits example_query None)]) \<and>
   list_all (passes_checks (signed_by ''dependabot'')) [signed_by ''dependabot''] \<and>
   author (commit signed_by_nobody) = None \<and>
   has_valid_signature signed_by_nobody \<and>
   (\<exists>m. getIsModified (single_page [signed_by ''dependabot'', signed_by ''dependabot'', signed_by_nobody])
          example_query [] =
        Some (Inl (TypeError m), [Graphql (FindPullRequestCommits example_query None)]))"
proof -
  have h1: "iterator_take (single_page [signed_by ''dependabot'', signed_by ''dependabot'', signed_by_nobody])
       (Suc (Suc (length [signed_by ''dependabot''])))
       (makeGraphqlIterator example_query) [] =
     Some (signed_by ''dependabot'' # [signed_by ''dependabot''] @ [signed_by_nobody],
           \<lparr>parameters = example_query, buffer = [], cursor = None, pending = False\<rparr>,
           [Graphql (FindPullRequestCommits example_query None)])"
    by code_simp
  have h2: "list_all (passes_checks (signed_by ''dependabot'')) [signed_by ''dependabot'']"
    by (simp add: passes_checks_def has_valid_signature_def author_user_login_def signed_by_def)
  have h3: "author (commit signed_by_nobody) = None"
    by (simp add: signed_by_nobody_def)
  have h4: "has_valid_signature signed_by_nobody"
    by (simp add: has_valid_signature_def signed_by_nobody_def)
  from h3 have h3': "author (commit signed_by_nobody) = None \<or>
         (\<exists>a. author (commit signed_by_nobody) = Some a \<and> user a = None)"
    by simp
  from getIsModified_absent_author[OF h1 h2 h3'] h4
  have "\<exists>m. getIsModified (single_page [signed_by ''dependabot'', signed_by ''dependabot'', signed_by_nobody])
          example_query [] =
        Some (Inl (TypeError m), [Graphql (FindPullRequestCommits example_query None)])"
    by simp
  with h1 h2 h3 h4 show ?thesis by blast
qed

lemma tryMerge_skips:
  assumes "\<not> first_five_pass env pr"
  shows "\<exists>msg. tryMerge env octokit m pr tr = Some (Inr (), tr @ [LogInfo msg])"
  using assms by (auto simp: tryMerge_def first_five_pass_def Let_def)

lemma tryMerge_enabled:
  assumes "first_five_pass env pr" and "enabledForManualChanges env"
  shows "tryMerge env octokit m pr tr = Some (mergeWithRetry env octokit (merge_details m pr) tr)"
  using assms
  by (auto simp: tryMerge_def first_five_pass_def enabledForManualChanges_def merge_details_def Let_def)

lemma tryMerge_detects:
  assumes "first_five_pass env pr" and "\<not> enabledForManualChanges env"
  shows "tryMerge env octokit m pr tr =
     (case getIsModified octokit (detector_query pr) tr of
        None \<Rightarrow> None
      | Some (Inl e, tr1) \<Rightarrow> Some (Inl e, tr1)
      | Some (Inr True, tr1) \<Rightarrow>
          Some (Inr (), tr1 @
            [LogInfo (''Pull request changes were not made by '' @ getInput env ''GITHUB_LOGIN'' @ ''.'')])
      | Some (Inr False, tr1) \<Rightarrow> Some (mergeWithRetry env octokit (merge_details m pr) tr1))"
  using assms
  by (auto simp: tryMerge_def first_five_pass_def enabledForManualChanges_def merge_details_def
        detector_query_def Let_def split: option.splits sum.splits bool.splits)

lemma ends_reported_snoc_log: "is_log e \<Longrightarrow> ends_reported octokit (tr @ [e])"
  by (simp add: ends_reported_def)

lemma mergeWithRetry_reported:
  "\<exists>new. snd (mergeWithRetry env octokit d tr) = tr @ new \<and> new \<noteq> [] \<and>
         ends_reported octokit (tr @ new)"
proof (induction "nat (maximumRetries d + 1 - retryCount d)" arbitrary: d tr rule: less_induct)
  case less
  let ?m = "parseInputMergeMethod env (length (parses tr))"
  let ?r = "Mutation (chosen_mutation (reviewEdge d) ?m) (commitHeadline d) (pullRequestId d)"
  show ?case
  proof (cases "octokit (requests tr) ?r")
    case (Inr x)
    then have "snd (mergeWithRetry env octokit d tr) = tr @ [ParsedMergeMethod ?m, Graphql ?r]"
      by (subst mergeWithRetry_unfold) (simp add: Let_def)
    moreover have "ends_reported octokit (tr @ [ParsedMergeMethod ?m, Graphql ?r])"
      using Inr by (simp add: ends_reported_def)
    ultimately show ?thesis by blast
  next
    case (Inl e)
    show ?thesis
    proof (cases "string_includes (message e) ''Base branch was modified.'' \<and> \<not> retryCount d > maximumRetries d")
      case False
      let ?a = "[ParsedMergeMethod ?m, Graphql ?r,
                 LogInfo (''Unable to merge after '' @ toString (retryCount d) @
                          '' attempts. Retries exhausted.''),
                 LogInfo rebase_hint,
                 LogDebug (''Original error: '' @ error_toString e @ ''.'')]"
      let ?b = "[ParsedMergeMethod ?m, Graphql ?r,
                 LogInfo rebase_hint,
                 LogDebug (''Original error: '' @ error_toString e @ ''.'')]"
      from Inl False have "snd (mergeWithRetry env octokit d tr) = tr @ ?a \<or>
                           snd (mergeWithRetry env octokit d tr) = tr @ ?b"
        by (subst (1 2) mergeWithRetry_unfold) (auto simp: Let_def)
      moreover have "ends_reported octokit (tr @ ?a)" "ends_reported octokit (tr @ ?b)"
        by (simp_all add: ends_reported_def)
      ultimately show ?thesis by blast
    next
      case True
      let ?d = "d\<lparr>retryCount := retryCount d + 1\<rparr>"
      let ?n = "retryCount d ^ EXPONENTIAL_BACKOFF env * MINIMUM_WAIT_TIME env"
      let ?step = "[ParsedMergeMethod ?m, Graphql ?r,
                    LogInfo (''Retrying in '' @ toString ?n @ ''...''), Delay ?n]"
      have step: "mergeWithRetry env octokit d tr = mergeWithRetry env octokit ?d (tr @ ?step)"
        using Inl True by (subst mergeWithRetry_unfold) (simp add: Let_def)
      have "nat (maximumRetries ?d + 1 - retryCount ?d) < nat (maximumRetries d + 1 - retryCount d)"
        using True by simp
      from less[OF this, of "tr @ ?step"] obtain new where
        new: "snd (mergeWithRetry env octokit ?d (tr @ ?step)) = (tr @ ?step) @ new" "new \<noteq> []"
          "ends_reported octokit ((tr @ ?step) @ new)"
        by blast
      have "snd (mergeWithRetry env octokit d tr) = tr @ (?step @ new)"
        unfolding step new(1) by simp
      moreover have "?step @ new \<noteq> []" by simp
      moreover have "ends_reported octokit (tr @ (?step @ new))"
        using new(3) by simp
      ultimately show ?thesis by blast
    qed
  qed
qed

lemma mergeWithRetry_outcome:
  "\<exists>new. mergeWithRetry env octokit d tr = (Inr (), tr @ new) \<and> new \<noteq> [] \<and>
         ends_reported octokit (tr @ new)"
  using mergeWithRetry_reported[of env octokit d tr] mergeWithRetry_returns[of env octokit d tr]
  by (auto simp: prod_eq_iff)

lemma mergeWithRetry_no_error: "mergeWithRetry env octokit d tr \<noteq> (Inl e, tr')"
  using mergeWithRetry_returns[of env octokit d tr] by auto

lemma tryMerge_error_iff:
  "tryMerge env octokit m pr tr = Some (Inl e, tr') \<longleftrightarrow>
     first_five_pass env pr \<and> \<not> enabledForManualChanges env \<and>
     getIsModified octokit (detector_query pr) tr = Some (Inl e, tr')"
proof (cases "first_five_pass env pr")
  case False
  with tryMerge_skips[OF False, of octokit m tr] show ?thesis by auto
next
  case True
  show ?thesis
  proof (cases "enabledForManualChanges env")
    case e: True
    with True show ?thesis
      by (auto simp: tryMerge_enabled mergeWithRetry_no_error)
  next
    case e: False
    show ?thesis
      using True e
      by (auto simp: tryMerge_detects[OF True e] mergeWithRetry_no_error
            split: option.splits sum.splits bool.splits)
  qed
qed

lemma tryMerge_reported:
  assumes "first_five_pass env pr \<and> \<not> enabledForManualChanges env \<longrightarrow>
             (\<exists>b tr1. getIsModified octokit (detector_query pr) tr = Some (Inr b, tr1))"
  shows "\<exists>new. tryMerge env octokit m pr tr = Some (Inr (), tr @ new) \<and> new \<noteq> [] \<and>
               ends_reported octokit (tr @ new)"
proof (cases "first_five_pass env pr")
  case False
  from tryMerge_skips[OF False, of octokit m tr] obtain msg where
    "tryMerge env octokit m pr tr = Some (Inr (), tr @ [LogInfo msg])" by blast
  moreover have "ends_reported octokit (tr @ [LogInfo msg])"
    by (simp add: ends_reported_snoc_log)
  ultimately show ?thesis by blast
next
  case True
  show ?thesis
  proof (cases "enabledForManualChanges env")
    case e: True
    with True mergeWithRetry_outcome[of env octokit "merge_details m pr" tr] show ?thesis
      by (simp add: tryMerge_enabled)
  next
    case e: False
    with True assms obtain b tr1 where
      g: "getIsModified octokit (detector_query pr) tr = Some (Inr b, tr1)" by blast
    from getIsModified_events[OF g] obtain new1 where new1: "tr1 = tr @ new1" by auto
    show ?thesis
    proof (cases b)
      case b: True
      let ?l = "LogInfo (''Pull request changes were not made by '' @ getInput env ''GITHUB_LOGIN'' @ ''.'')"
      have "tryMerge env octokit m pr tr = Some (Inr (), tr @ (new1 @ [?l]))"
        using g b new1 by (simp add: tryMerge_detects[OF True e])
      moreover have "ends_reported octokit (tr @ (new1 @ [?l]))"
        using ends_reported_snoc_log[of ?l octokit "tr @ new1"] by simp
      ultimately show ?thesis by blast
    next
      case b: False
      from mergeWithRetry_outcome[of env octokit "merge_details m pr" tr1] obtain new2 where
        new2: "mergeWithRetry env octokit (merge_details m pr) tr1 = (Inr (), tr1 @ new2)"
          "new2 \<noteq> []" "ends_reported octokit (tr1 @ new2)"
        by blast
      have "tryMerge env octokit m pr tr = Some (Inr (), tr @ (new1 @ new2))"
        using g b new1 new2(1) by (simp add: tryMerge_detects[OF True e])
      moreover have "new1 @ new2 \<noteq> []" using new2(2) by simp
      moreover have "ends_reported octokit (tr @ (new1 @ new2))"
        using new2(3) new1 by simp
      ultimately show ?thesis by blast
    qed
  qed
qed

subsection \<open>C2: what escapes the entry point\<close>

text \<open>
  C2, as the claim states it, fails: \<open>tryMerge\<close> awaits \<open>getIsModified\<close> outside any
  \<open>try\<close>, so an error of the commit traversal leaves \<open>tryMerge\<close>. Here the pull request
  passes the first five checks and the executor rejects the commit query.
\<close>

theorem tryMerge_traversal_error_counterexample:
  "tryMerge example_env unreachable 2 example_pr [] =
     Some (Inl \<lparr>name = ''HttpError'', message = ''getaddrinfo ENOTFOUND''\<rparr>,
           [Graphql (FindPullRequestCommits example_query None)])"
  by code_simp

text \<open>
  C2, amended. An error leaves \<open>tryMerge\<close> exactly when the gate consults the modification
  detector (the first five checks pass and manual changes are not enabled) and the
  detector fails, and it is then the detector's error. In every other case in which the
  detector, if consulted, returns, \<open>tryMerge\<close> returns normally and its trace ends in a
  reported outcome: a log line (a skip, or a merge that was given up), or a mutation that
  the executor accepted. No ineligibility and no rejected mutation raises an error.
\<close>

theorem tryMerge_fails_only_in_traversal:
  "(tryMerge env octokit m pr tr = Some (Inl e, tr') \<longleftrightarrow>
      first_five_pass env pr \<and> \<not> enabledForManualChanges env \<and>
      getIsModified octokit (detector_query pr) tr = Some (Inl e, tr')) \<and>
   ((first_five_pass env pr \<and> \<not> enabledForManualChanges env \<longrightarrow>
       (\<exists>b tr1. getIsModified octokit (detector_query pr) tr = Some (Inr b, tr1))) \<longrightarrow>
    (\<exists>new. tryMerge env octokit m pr tr = Some (Inr (), tr @ new) \<and> new \<noteq> [] \<and>
           ends_reported octokit (tr @ new)))"
  using tryMerge_error_iff[of env octokit m pr tr e tr'] tryMerge_reported[of env pr octokit tr m]
  by blast

theorem tryMerge_fails_only_in_traversal_witness:
  "first_five_pass example_env example_pr \<and> \<not> enabledForManualChanges example_env \<and>
   getIsModified three_pages (detector_query example_pr) [] =
     Some (Inr True, [Graphql (FindPullRequestCommits example_query None)]) \<and>
   (\<exists>new. tryMerge example_env three_pages 2 example_pr [] = Some (Inr (), new) \<and> new \<noteq> [] \<and>
          ends_reported three_pages new)"
proof -
  have h1: "first_five_pass example_env example_pr"
    by (simp add: first_five_pass_def example_env_def example_pr_def)
  have h2: "\<not> enabledForManualChanges example_env"
    by (simp add: enabledForManualChanges_def example_env_def)
  have h3: "getIsModified three_pages (detector_query example_pr) [] =
     Some (Inr True, [Graphql (FindPullRequestCommits example_query None)])"
    by code_simp
  from tryMerge_fails_only_in_traversal[of example_env three_pages 2 example_pr "[]" base_modified "[]"]
    h1 h2 h3
  show ?thesis by auto
qed

lemma tryMerge_no_mutation:
  assumes six: "\<not> enabledForManualChanges env"
      "\<forall>tr1. getIsModified octokit (detector_query pr) tr \<noteq> Some (Inr False, tr1)"
    and run: "tryMerge env octokit m pr tr = Some (r, tr')"
  shows "\<exists>new. tr' = tr @ new \<and> mutations new = []"
proof (cases "first_five_pass env pr")
  case False
  from tryMerge_skips[OF False, of octokit m tr] run obtain msg where "tr' = tr @ [LogInfo msg]"
    by auto
  moreover have "mutations [LogInfo msg] = []"
    by (simp add: mutations_def)
  ultimately show ?thesis by blast
next
  case True
  from run obtain y where g: "getIsModified octokit (detector_query pr) tr = Some y"
    by (auto simp: tryMerge_detects[OF True six(1)] split: option.splits)
  from getIsModified_events[OF g] obtain new1 where
    new1: "snd y = tr @ new1" "list_all detector_event new1" by blast
  let ?l = "LogInfo (''Pull request changes were not made by '' @ getInput env ''GITHUB_LOGIN'' @ ''.'')"
  have m1: "mutations new1 = []" "mutations (new1 @ [?l]) = []"
    using detector_event_mutations[OF new1(2)] by (simp_all add: mutations_def)
  from run g six(2) new1(1) have "tr' = tr @ new1 \<or> tr' = tr @ (new1 @ [?l])"
    by (auto simp: tryMerge_detects[OF True six(1)] split: sum.splits bool.splits prod.splits)
  with m1 show ?thesis by blast
qed

subsection \<open>C5: no mutation for an ineligible pull request\<close>

text \<open>
  C5. The first of the five leading checks of the gate that fails (mergeable state, merged
  flag, merge-state-status, open state, title preset) decides the outcome: \<open>tryMerge\<close>
  returns with the log line of that check as its only effect. It issues no request at
  all, so the later checks, the modification detector among them, are not evaluated.
  When any of the six checks fails, the sixth meaning that manual changes are not enabled
  and the detector does not return false, no run of \<open>tryMerge\<close> contains a mutation.
\<close>

theorem tryMerge_ineligible_no_mutation:
  "(mergeableState pr \<noteq> ''MERGEABLE'' \<longrightarrow>
      tryMerge env octokit m pr tr =
        Some (Inr (), tr @
          [LogInfo (''Pull request is not in a mergeable state: '' @ mergeableState pr @ ''.'')])) \<and>
   (mergeableState pr = ''MERGEABLE'' \<and> merged pr \<longrightarrow>
      tryMerge env octokit m pr tr =
        Some (Inr (), tr @ [LogInfo ''Pull request is already merged.''])) \<and>
   (mergeableState pr = ''MERGEABLE'' \<and> \<not> merged pr \<and>
    mergeStateStatus pr = Some s \<and> s \<noteq> ''CLEAN'' \<longrightarrow>
      tryMerge env octokit m pr tr =
        Some (Inr (), tr @
          [LogInfo (''Pull request cannot be merged cleanly. Current state: '' @ s @ ''.'')])) \<and>
   (mergeableState pr = ''MERGEABLE'' \<and> \<not> merged pr \<and>
    (mergeStateStatus pr = None \<or> mergeStateStatus pr = Some ''CLEAN'') \<and>
    pullRequestState pr \<noteq> ''OPEN'' \<longrightarrow>
      tryMerge env octokit m pr tr =
        Some (Inr (), tr @
          [LogInfo (''Pull request is not open: '' @ pullRequestState pr @ ''.'')])) \<and>
   (mergeableState pr = ''MERGEABLE'' \<and> \<not> merged pr \<and>
    (mergeStateStatus pr = None \<or> mergeStateStatus pr = Some ''CLEAN'') \<and>
    pullRequestState pr = ''OPEN'' \<and>
    \<not> checkPullRequestTitleForMergePreset env (pullRequestTitle pr) \<longrightarrow>
      tryMerge env octokit m pr tr =
        Some (Inr (), tr @ [LogInfo ''Pull request version bump is not allowed by PRESET.''])) \<and>
   (\<not> first_five_pass env pr \<or>
      (\<not> enabledForManualChanges env \<and>
       (\<forall>tr1. getIsModified octokit (detector_query pr) tr \<noteq> Some (Inr False, tr1))) \<longrightarrow>
      (\<forall>r tr'. tryMerge env octokit m pr tr = Some (r, tr') \<longrightarrow>
         (\<exists>new. tr' = tr @ new \<and> mutations new = [])))"
proof (intro conjI impI allI)
  fix r tr'
  assume fail: "\<not> first_five_pass env pr \<or>
      (\<not> enabledForManualChanges env \<and>
       (\<forall>tr1. getIsModified octokit (detector_query pr) tr \<noteq> Some (Inr False, tr1)))"
    and run: "tryMerge env octokit m pr tr = Some (r, tr')"
  show "\<exists>new. tr' = tr @ new \<and> mutations new = []"
  proof (cases "first_five_pass env pr")
    case False
    from tryMerge_skips[OF False, of octokit m tr] run obtain msg where "tr' = tr @ [LogInfo msg]"
      by auto
    moreover have "mutations [LogInfo msg] = []"
      by (simp add: mutations_def)
    ultimately show ?thesis by blast
  next
    case True
    with fail run show ?thesis
      by (auto intro: tryMerge_no_mutation)
  qed
qed (auto simp: tryMerge_def Let_def)

text \<open>
  Instances: a pull request with conflicts that is also merged; a merged one with a
  blocked status; a blocked and closed one; a closed one; an open one whose second commit
  is by another author.
\<close>

theorem tryMerge_ineligible_no_mutation_witness:
  "tryMerge example_env three_pages 2
       (example_pr\<lparr>mergeableState := ''CONFLICTING'', merged := True\<rparr>) [] =
     Some (Inr (), [LogInfo ''Pull request is not in a mergeable state: CONFLICTING.'']) \<and>
   tryMerge example_env three_pages 2
       (example_pr\<lparr>merged := True, mergeStateStatus := Some ''BLOCKED''\<rparr>) [] =
     Some (Inr (), [LogInfo ''Pull request is already merged.'']) \<and>
   tryMerge example_env three_pages 2
       (example_pr\<lparr>mergeStateStatus := Some ''BLOCKED'', pullRequestState := ''CLOSED''\<rparr>) [] =
     Some (Inr (), [LogInfo ''Pull request cannot be merged cleanly. Current state: BLOCKED.'']) \<and>
   tryMerge example_env three_pages 2 (example_pr\<lparr>pullRequestState := ''CLOSED''\<rparr>) [] =
     Some (Inr (), [LogInfo ''Pull request is not open: CLOSED.'']) \<and>
   tryMerge (example_env\<lparr>checkPullRequestTitleForMergePreset := (\<lambda>_. False)\<rparr>) three_pages 2
       example_pr [] =
     Some (Inr (), [LogInfo ''Pull request version bump is not allowed by PRESET.'']) \<and>
   \<not> enabledForManualChanges example_env \<and>
   getIsModified three_pages (detector_query example_pr) [] =
     Some (Inr True, [Graphql (FindPullRequestCommits example_query None)]) \<and>
   tryMerge example_env three_pages 2 example_pr [] =
     Some (Inr (), [Graphql (FindPullRequestCommits example_query None),
                    LogInfo ''Pull request changes were not made by dependabot.'']) \<and>
   mutations [Graphql (FindPullRequestCommits example_query None),
              LogInfo ''Pull request changes were not made by dependabot.''] = []"
proof -
  note t = tryMerge_ineligible_no_mutation
  have e1: "tryMerge example_env three_pages 2
       (example_pr\<lparr>mergeableState := ''CONFLICTING'', merged := True\<rparr>) [] =
     Some (Inr (), [LogInfo ''Pull request is not in a mergeable state: CONFLICTING.''])"
    using t[of "example_pr\<lparr>mergeableState := ''CONFLICTING'', merged := True\<rparr>"
              example_env three_pages 2 "[]"]
    by simp
  have e2: "tryMerge example_env three_pages 2
       (example_pr\<lparr>merged := True, mergeStateStatus := Some ''BLOCKED''\<rparr>) [] =
     Some (Inr (), [LogInfo ''Pull request is already merged.''])"
    using t[of "example_pr\<lparr>merged := True, mergeStateStatus := Some ''BLOCKED''\<rparr>"
              example_env three_pages 2 "[]"]
    by (simp add: example_pr_def)
  have e3: "tryMerge example_env three_pages 2
       (example_pr\<lparr>mergeStateStatus := Some ''BLOCKED'', pullRequestState := ''CLOSED''\<rparr>) [] =
     Some (Inr (), [LogInfo ''Pull request cannot be merged cleanly. Current state: BLOCKED.''])"
    using t[of "example_pr\<lparr>mergeStateStatus := Some ''BLOCKED'', pullRequestState := ''CLOSED''\<rparr>"
              example_env three_pages 2 "[]" "''BLOCKED''"]
    by (simp add: example_pr_def)
  have e4: "tryMerge example_env three_pages 2 (example_pr\<lparr>pullRequestState := ''CLOSED''\<rparr>) [] =
     Some (Inr (), [LogInfo ''Pull request is not open: CLOSED.''])"
    using t[of "example_pr\<lparr>pullRequestState := ''CLOSED''\<rparr>" example_env three_pages 2 "[]"]
    by (simp add: example_pr_def)
  have e5: "tryMerge (example_env\<lparr>checkPullRequestTitleForMergePreset := (\<lambda>_. False)\<rparr>) three_pages 2
       example_pr [] =
     Some (Inr (), [LogInfo ''Pull request version bump is not allowed by PRESET.''])"
    using t[of example_pr "example_env\<lparr>checkPullRequestTitleForMergePreset := (\<lambda>_. False)\<rparr>"
              three_pages 2 "[]"]
    by (simp add: example_pr_def)
  have h2: "\<not> enabledForManualChanges example_env"
    by (simp add: enabledForManualChanges_def example_env_def)
  have h3: "getIsModified three_pages (detector_query example_pr) [] =
     Some (Inr True, [Graphql (FindPullRequestCommits example_query None)])"
    by code_simp
  have h4: "tryMerge example_env three_pages 2 example_pr [] =
     Some (Inr (), [Graphql (FindPullRequestCommits example_query None),
                    LogInfo ''Pull request changes were not made by dependabot.''])"
    by code_simp
  from t[of example_pr example_env three_pages 2 "[]"] h2 h3 h4
  have "mutations [Graphql (FindPullRequestCommits example_query None),
              LogInfo ''Pull request changes were not made by dependabot.''] = []"
    by auto
  with e1 e2 e3 e4 e5 h2 h3 h4 show ?thesis by blast
qed

lemma tryMerge_cong:
  assumes "mergeableState p = mergeableState q" "merged p = merged q"
    "(mergeStateStatus p = None \<or> mergeStateStatus p = Some ''CLEAN'') \<and>
     (mergeStateStatus q = None \<or> mergeStateStatus q = Some ''CLEAN'') \<or>
     mergeStateStatus p = mergeStateStatus q"
    "pullRequestState p = pullRequestState q" "pullRequestTitle p = pullRequestTitle q"
    "detector_query p = detector_query q" "merge_details m p = merge_details m q"
  shows "tryMerge env octokit m p tr = tryMerge env octokit m q tr"
proof (cases "first_five_pass env p")
  case False
  with assms(1-5) show ?thesis
    by (auto simp: tryMerge_def Let_def first_five_pass_def)
next
  case True
  with assms(1-5) have q: "first_five_pass env q"
    by (auto simp: first_five_pass_def)
  show ?thesis
  proof (cases "enabledForManualChanges env")
    case e: True
    show ?thesis
      by (simp add: tryMerge_enabled[OF True e] tryMerge_enabled[OF q e] assms(7))
  next
    case e: False
    show ?thesis
      unfolding tryMerge_detects[OF True e] tryMerge_detects[OF q e] assms(6,7) by (rule refl)
  qed
qed

subsection \<open>C6: the merge-state-status check\<close>

text \<open>
  C6. A \<open>mergeStateStatus\<close> that is present and is not \<open>CLEAN\<close> makes \<open>tryMerge\<close> skip the
  merge: it returns with one log line and no request, and when the two earlier checks
  pass the line names that status. An absent \<open>mergeStateStatus\<close> passes the check:
  \<open>tryMerge\<close> then does exactly what it does for the status \<open>CLEAN\<close>, that is, it goes
  on to the remaining checks.
\<close>

theorem tryMerge_mergeStateStatus:
  "(mergeStateStatus pr = Some s \<and> s \<noteq> ''CLEAN'' \<longrightarrow>
      (\<exists>msg. tryMerge env octokit m pr tr = Some (Inr (), tr @ [LogInfo msg]))) \<and>
   (mergeableState pr = ''MERGEABLE'' \<and> \<not> merged pr \<and>
    mergeStateStatus pr = Some s \<and> s \<noteq> ''CLEAN'' \<longrightarrow>
      tryMerge env octokit m pr tr =
        Some (Inr (), tr @
          [LogInfo (''Pull request cannot be merged cleanly. Current state: '' @ s @ ''.'')])) \<and>
   tryMerge env octokit m (pr\<lparr>mergeStateStatus := None\<rparr>) tr =
     tryMerge env octokit m (pr\<lparr>mergeStateStatus := Some ''CLEAN''\<rparr>) tr"
proof (intro conjI impI)
  assume "mergeStateStatus pr = Some s \<and> s \<noteq> ''CLEAN''"
  then have "\<not> first_five_pass env pr"
    by (simp add: first_five_pass_def)
  then show "\<exists>msg. tryMerge env octokit m pr tr = Some (Inr (), tr @ [LogInfo msg])"
    by (rule tryMerge_skips)
next
  show "tryMerge env octokit m (pr\<lparr>mergeStateStatus := None\<rparr>) tr =
        tryMerge env octokit m (pr\<lparr>mergeStateStatus := Some ''CLEAN''\<rparr>) tr"
    by (rule tryMerge_cong) (simp_all add: detector_query_def merge_details_def)
qed (auto simp: tryMerge_def Let_def)

text \<open>
  A blocked pull request is skipped; the same pull request without a status is merged,
  as it is with the status \<open>CLEAN\<close>.
\<close>

theorem tryMerge_mergeStateStatus_witness:
  "tryMerge example_env (single_page [signed_by ''dependabot'']) 2
       (example_pr\<lparr>mergeStateStatus := Some ''BLOCKED''\<rparr>) [] =
     Some (Inr (), [LogInfo ''Pull request cannot be merged cleanly. Current state: BLOCKED.'']) \<and>
   tryMerge example_env (single_page [signed_by ''dependabot'']) 2
       (example_pr\<lparr>mergeStateStatus := None\<rparr>) [] =
     tryMerge example_env (single_page [signed_by ''dependabot'']) 2
       (example_pr\<lparr>mergeStateStatus := Some ''CLEAN''\<rparr>) [] \<and>
   tryMerge example_env (single_page [signed_by ''dependabot'']) 2
       (example_pr\<lparr>mergeStateStatus := None\<rparr>) [] =
     Some (Inr (),
       [Graphql (FindPullRequestCommits example_query None),
        ParsedMergeMethod SQUASH,
        Graphql (Mutation (approveAndMergePullRequestMutation SQUASH) ''Bump lodash'' ''PR_1'')])"
proof -
  have e: "tryMerge example_env (single_page [signed_by ''dependabot'']) 2
       (example_pr\<lparr>mergeStateStatus := None\<rparr>) [] =
     Some (Inr (),
       [Graphql (FindPullRequestCommits example_query None),
        ParsedMergeMethod SQUASH,
        Graphql (Mutation (approveAndMergePullRequestMutation SQUASH) ''Bump lodash'' ''PR_1'')])"
    by code_simp
  from tryMerge_mergeStateStatus[of "example_pr\<lparr>mergeStateStatus := Some ''BLOCKED''\<rparr>"
         "''BLOCKED''" example_env "single_page [signed_by ''dependabot'']" 2 "[]"]
  have b: "tryMerge example_env (single_page [signed_by ''dependabot'']) 2
       (example_pr\<lparr>mergeStateStatus := Some ''BLOCKED''\<rparr>) [] =
     Some (Inr (), [LogInfo ''Pull request cannot be merged cleanly. Current state: BLOCKED.''])"
    by (simp add: example_pr_def)
  from tryMerge_mergeStateStatus[of example_pr s example_env "single_page [signed_by ''dependabot'']" 2 "[]"]
  have "tryMerge example_env (single_page [signed_by ''dependabot'']) 2
       (example_pr\<lparr>mergeStateStatus := None\<rparr>) [] =
     tryMerge example_env (single_page [signed_by ''dependabot'']) 2
       (example_pr\<lparr>mergeStateStatus := Some ''CLEAN''\<rparr>) []"
    by blast
  with b e show ?thesis by blast
qed

lemma mutations_requests:
  "requests new = map (\<lambda>mm. Mutation (f mm) h i) ms \<Longrightarrow> mutations new = requests new"
  by (simp add: mutations_def filter_id_conv)

lemma mergeWithRetry_mutations:
  "\<exists>new. mergeWithRetry env octokit d tr = (Inr (), tr @ new) \<and> mutations new \<noteq> [] \<and>
     list_all (\<lambda>q. \<exists>mm. q = Mutation (chosen_mutation (reviewEdge d) mm) (commitHeadline d)
                             (pullRequestId d)) (mutations new)"
proof -
  from mergeWithRetry_requests[of env octokit d tr] obtain new where
    new: "snd (mergeWithRetry env octokit d tr) = tr @ new"
      "requests new =
         map (\<lambda>m. Mutation (chosen_mutation (reviewEdge d) m) (commitHeadline d) (pullRequestId d))
           (parses new)"
      "parses new \<noteq> []"
    by blast
  have m: "mutations new = requests new"
    using new(2) by (rule mutations_requests)
  have "mergeWithRetry env octokit d tr = (Inr (), tr @ new)"
    using new(1) mergeWithRetry_returns[of env octokit d tr] by (simp add: prod_eq_iff)
  moreover have "mutations new \<noteq> []"
    unfolding m new(2) using new(3) by simp
  moreover have "list_all (\<lambda>q. \<exists>mm. q = Mutation (chosen_mutation (reviewEdge d) mm) (commitHeadline d)
                             (pullRequestId d)) (mutations new)"
    unfolding m new(2) by (auto simp: list_all_iff)
  ultimately show ?thesis by blast
qed

lemma tryMerge_mutations:
  assumes run: "tryMerge env octokit m pr tr = Some (r, tr')"
  shows "\<exists>new. tr' = tr @ new \<and>
     list_all (\<lambda>q. \<exists>mm. q = Mutation (chosen_mutation (first_edge (reviewEdges pr)) mm)
                             (commitMessageHeadline pr) (pullRequestId' pr)) (mutations new)"
proof -
  let ?P = "\<lambda>q. \<exists>mm. q = Mutation (chosen_mutation (first_edge (reviewEdges pr)) mm)
                             (commitMessageHeadline pr) (pullRequestId' pr)"
  have merged: "\<exists>new. mergeWithRetry env octokit (merge_details m pr) t = (Inr (), t @ new) \<and>
                  list_all ?P (mutations new)" for t
    using mergeWithRetry_mutations[of env octokit "merge_details m pr" t]
    by (auto simp: merge_details_def)
  show ?thesis
  proof (cases "first_five_pass env pr")
    case False
    from tryMerge_skips[OF False, of octokit m tr] run obtain msg where "tr' = tr @ [LogInfo msg]"
      by auto
    moreover have "list_all ?P (mutations [LogInfo msg])"
      by (simp add: mutations_def)
    ultimately show ?thesis by blast
  next
    case True
    show ?thesis
    proof (cases "enabledForManualChanges env")
      case e: True
      from merged[of tr] run show ?thesis
        by (auto simp: tryMerge_enabled[OF True e])
    next
      case e: False
      show ?thesis
      proof (cases "\<exists>tr1. getIsModified octokit (detector_query pr) tr = Some (Inr False, tr1)")
        case False
        with tryMerge_no_mutation[OF e _ run] obtain new where "tr' = tr @ new" "mutations new = []"
          by auto
        then show ?thesis by auto
      next
        case d: True
        then obtain tr1 where g: "getIsModified octokit (detector_query pr) tr = Some (Inr False, tr1)"
          by blast
        from getIsModified_events[OF g] obtain new1 where
          new1: "tr1 = tr @ new1" "list_all detector_event new1" by auto
        from merged[of tr1] obtain new2 where
          new2: "mergeWithRetry env octokit (merge_details m pr) tr1 = (Inr (), tr1 @ new2)"
            "list_all ?P (mutations new2)"
          by blast
        from run g new2(1) new1(1) have "tr' = tr @ (new1 @ new2)"
          by (simp add: tryMerge_detects[OF True e])
        moreover have "list_all ?P (mutations (new1 @ new2))"
          using new2(2) detector_event_mutations[OF new1(2)] by simp
        ultimately show ?thesis by blast
      qed
    qed
  qed
qed

lemma tryMerge_merges:
  assumes "first_five_pass env pr"
    and "enabledForManualChanges env \<or>
         (\<exists>tr1. getIsModified octokit (detector_query pr) tr = Some (Inr False, tr1))"
  shows "\<exists>new. tryMerge env octokit m pr tr = Some (Inr (), tr @ new) \<and> mutations new \<noteq> []"
proof (cases "enabledForManualChanges env")
  case True
  with assms(1) mergeWithRetry_mutations[of env octokit "merge_details m pr" tr] show ?thesis
    by (auto simp: tryMerge_enabled)
next
  case False
  with assms(2) obtain tr1 where g: "getIsModified octokit (detector_query pr) tr = Some (Inr False, tr1)"
    by blast
  from getIsModified_events[OF g] obtain new1 where new1: "tr1 = tr @ new1" by auto
  from mergeWithRetry_mutations[of env octokit "merge_details m pr" tr1] obtain new2 where
    new2: "mergeWithRetry env octokit (merge_details m pr) tr1 = (Inr (), tr1 @ new2)"
      "mutations new2 \<noteq> []"
    by blast
  have "tryMerge env octokit m pr tr = Some (Inr (), tr @ (new1 @ new2))"
    using g new2(1) new1 by (simp add: tryMerge_detects[OF assms(1) False])
  moreover have "mutations (new1 @ new2) \<noteq> []"
    using new2(2) by simp
  ultimately show ?thesis by blast
qed

lemma chosen_mutation_first_edge:
  "chosen_mutation (first_edge es) mm =
     (case es of [] \<Rightarrow> approveAndMergePullRequestMutation mm | _ # _ \<Rightarrow> mergePullRequestMutation mm)"
  by (simp add: chosen_mutation_def first_edge_def split: list.splits)

subsection \<open>C7: the choice of the mutation\<close>

text \<open>
  C7. Every mutation a run of \<open>tryMerge\<close> issues is the approve-and-merge mutation when
  \<open>reviewEdges\<close> is empty and the merge-only mutation when it is not, with the commit
  headline and the id of the pull request as payload; a pull request that passes the gate
  gets at least one such mutation. Only the first review edge is used: with the edges
  after the first removed, \<open>tryMerge\<close> does the same.
\<close>

theorem tryMerge_mutation_choice:
  "(\<forall>r tr'. tryMerge env octokit m pr tr = Some (r, tr') \<longrightarrow>
      (\<exists>new. tr' = tr @ new \<and>
         list_all
           (\<lambda>q. \<exists>mm. q =
              Mutation
                (case reviewEdges pr of
                   [] \<Rightarrow> approveAndMergePullRequestMutation mm
                 | _ # _ \<Rightarrow> mergePullRequestMutation mm)
                (commitMessageHeadline pr) (pullRequestId' pr))
           (mutations new))) \<and>
   (first_five_pass env pr \<and>
    (enabledForManualChanges env \<or>
     (\<exists>tr1. getIsModified octokit (detector_query pr) tr = Some (Inr False, tr1))) \<longrightarrow>
      (\<exists>new. tryMerge env octokit m pr tr = Some (Inr (), tr @ new) \<and> mutations new \<noteq> [])) \<and>
   tryMerge env octokit m (pr\<lparr>reviewEdges := e # es\<rparr>) tr =
     tryMerge env octokit m (pr\<lparr>reviewEdges := [e]\<rparr>) tr"
proof (intro conjI impI allI)
  fix r tr'
  assume "tryMerge env octokit m pr tr = Some (r, tr')"
  from tryMerge_mutations[OF this]
  show "\<exists>new. tr' = tr @ new \<and>
         list_all
           (\<lambda>q. \<exists>mm. q =
              Mutation
                (case reviewEdges pr of
                   [] \<Rightarrow> approveAndMergePullRequestMutation mm
                 | _ # _ \<Rightarrow> mergePullRequestMutation mm)
                (commitMessageHeadline pr) (pullRequestId' pr))
           (mutations new)"
    unfolding chosen_mutation_first_edge .
next
  assume "first_five_pass env pr \<and>
    (enabledForManualChanges env \<or>
     (\<exists>tr1. getIsModified octokit (detector_query pr) tr = Some (Inr False, tr1)))"
  then show "\<exists>new. tryMerge env octokit m pr tr = Some (Inr (), tr @ new) \<and> mutations new \<noteq> []"
    using tryMerge_merges[of env pr octokit tr m] by blast
next
  show "tryMerge env octokit m (pr\<lparr>reviewEdges := e # es\<rparr>) tr =
        tryMerge env octokit m (pr\<lparr>reviewEdges := [e]\<rparr>) tr"
    by (rule tryMerge_cong) (simp_all add: detector_query_def merge_details_def first_edge_def)
qed

text \<open>
  Without a review the approve-and-merge mutation is sent; with an approval followed by a
  request for changes, the merge-only mutation.
\<close>

theorem tryMerge_mutation_choice_witness:
  "first_five_pass example_env example_pr \<and>
   getIsModified (single_page [signed_by ''dependabot'']) (detector_query example_pr) [] =
     Some (Inr False, [Graphql (FindPullRequestCommits example_query None)]) \<and>
   tryMerge example_env (single_page [signed_by ''dependabot'']) 2 example_pr [] =
     Some (Inr (),
       [Graphql (FindPullRequestCommits example_query None),
        ParsedMergeMethod SQUASH,
        Graphql (Mutation (approveAndMergePullRequestMutation SQUASH) ''Bump lodash'' ''PR_1'')]) \<and>
   tryMerge example_env (single_page [signed_by ''dependabot'']) 2
       (example_pr\<lparr>reviewEdges := [approved, changes_requested]\<rparr>) [] =
     Some (Inr (),
       [Graphql (FindPullRequestCommits example_query None),
        ParsedMergeMethod SQUASH,
        Graphql (Mutation (mergePullRequestMutation SQUASH) ''Bump lodash'' ''PR_1'')]) \<and>
   (\<exists>new. tryMerge example_env (single_page [signed_by ''dependabot'']) 2 example_pr [] =
            Some (Inr (), [] @ new) \<and>
          mutations new \<noteq> [] \<and>
          list_all
           (\<lambda>q. \<exists>mm. q =
              Mutation (approveAndMergePullRequestMutation mm) ''Bump lodash'' ''PR_1'')
           (mutations new))"
proof -
  let ?o = "single_page [signed_by ''dependabot'']"
  note t = tryMerge_mutation_choice[of example_env ?o 2 _ "[]"]
  have h1: "first_five_pass example_env example_pr"
    by (simp add: first_five_pass_def example_env_def example_pr_def)
  have h2: "getIsModified ?o (detector_query example_pr) [] =
     Some (Inr False, [Graphql (FindPullRequestCommits example_query None)])"
    by code_simp
  have e1: "tryMerge example_env ?o 2 example_pr [] =
     Some (Inr (),
       [Graphql (FindPullRequestCommits example_query None),
        ParsedMergeMethod SQUASH,
        Graphql (Mutation (approveAndMergePullRequestMutation SQUASH) ''Bump lodash'' ''PR_1'')])"
    by code_simp
  have e2: "tryMerge example_env ?o 2 (example_pr\<lparr>reviewEdges := [approved]\<rparr>) [] =
     Some (Inr (),
       [Graphql (FindPullRequestCommits example_query None),
        ParsedMergeMethod SQUASH,
        Graphql (Mutation (mergePullRequestMutation SQUASH) ''Bump lodash'' ''PR_1'')])"
    by code_simp
  have e3: "tryMerge example_env ?o 2 (example_pr\<lparr>reviewEdges := [approved, changes_requested]\<rparr>) [] =
     Some (Inr (),
       [Graphql (FindPullRequestCommits example_query None),
        ParsedMergeMethod SQUASH,
        Graphql (Mutation (mergePullRequestMutation SQUASH) ''Bump lodash'' ''PR_1'')])"
    using t[of example_pr approved "[changes_requested]"] e2 by simp
  from t[of example_pr] h1 h2 obtain new where
    n: "tryMerge example_env ?o 2 example_pr [] = Some (Inr (), [] @ new)" "mutations new \<noteq> []"
    by blast
  from t[of example_pr] n(1) have "list_all
           (\<lambda>q. \<exists>mm. q =
              Mutation
                (case reviewEdges example_pr of
                   [] \<Rightarrow> approveAndMergePullRequestMutation mm
                 | _ # _ \<Rightarrow> mergePullRequestMutation mm)
                (commitMessageHeadline example_pr) (pullRequestId' example_pr))
           (mutations new)"
    by auto
  then have "list_all
           (\<lambda>q. \<exists>mm. q =
              Mutation (approveAndMergePullRequestMutation mm) ''Bump lodash'' ''PR_1'')
           (mutations new)"
    by (simp add: example_pr_def)
  with n h1 h2 e1 e3 show ?thesis by blast
qed

lemma mergeWithRetry_getInput:
  "mergeWithRetry (env\<lparr>getInput := g\<rparr>) octokit d tr = mergeWithRetry env octokit d tr"
proof (induction "nat (maximumRetries d + 1 - retryCount d)" arbitrary: d tr rule: less_induct)
  case less
  show ?case
    by (simp add: mergeWithRetry_unfold[of _ octokit d tr] Let_def less split: sum.splits)
qed

lemma first_five_pass_getInput [simp]:
  "first_five_pass (env\<lparr>getInput := g\<rparr>) pr = first_five_pass env pr"
  by (simp add: first_five_pass_def)

lemma enabledForManualChanges_login [simp]:
  "enabledForManualChanges (env\<lparr>getInput := (getInput env)(''GITHUB_LOGIN'' := a)\<rparr>) =
   enabledForManualChanges env"
  by (simp add: enabledForManualChanges_def)

lemma tryMerge_login_cases:
  "tryMerge (env\<lparr>getInput := (getInput env)(''GITHUB_LOGIN'' := a)\<rparr>) octokit m pr tr =
   tryMerge (env\<lparr>getInput := (getInput env)(''GITHUB_LOGIN'' := b)\<rparr>) octokit m pr tr \<or>
   (\<exists>tr1. getIsModified octokit (detector_query pr) tr = Some (Inr True, tr1) \<and>
      tryMerge (env\<lparr>getInput := (getInput env)(''GITHUB_LOGIN'' := a)\<rparr>) octokit m pr tr =
        Some (Inr (), tr1 @ [LogInfo (''Pull request changes were not made by '' @ a @ ''.'')]) \<and>
      tryMerge (env\<lparr>getInput := (getInput env)(''GITHUB_LOGIN'' := b)\<rparr>) octokit m pr tr =
        Some (Inr (), tr1 @ [LogInfo (''Pull request changes were not made by '' @ b @ ''.'')]))"
proof (cases "first_five_pass env pr")
  case False
  then show ?thesis
    by (auto simp: tryMerge_def Let_def first_five_pass_def)
next
  case True
  let ?a = "env\<lparr>getInput := (getInput env)(''GITHUB_LOGIN'' := a)\<rparr>"
  let ?b = "env\<lparr>getInput := (getInput env)(''GITHUB_LOGIN'' := b)\<rparr>"
  from True have pa: "first_five_pass ?a pr" and pb: "first_five_pass ?b pr"
    by simp_all
  show ?thesis
  proof (cases "enabledForManualChanges env")
    case e: True
    then have ea: "enabledForManualChanges ?a" and eb: "enabledForManualChanges ?b"
      by simp_all
    show ?thesis
      unfolding tryMerge_enabled[OF pa ea] tryMerge_enabled[OF pb eb] mergeWithRetry_getInput
      by simp
  next
    case e: False
    then have ea: "\<not> enabledForManualChanges ?a" and eb: "\<not> enabledForManualChanges ?b"
      by simp_all
    show ?thesis
      unfolding tryMerge_detects[OF pa ea] tryMerge_detects[OF pb eb]
      by (auto simp: mergeWithRetry_getInput split: option.splits sum.splits bool.splits)
  qed
qed

subsection \<open>C10: the allowed-author input\<close>

text \<open>
  C10. The value of the input \<open>GITHUB_LOGIN\<close> has no influence on what \<open>tryMerge\<close> does.
  For two values \<open>a\<close> and \<open>b\<close> of the input, and everything else the same, the two calls
  either are equal (result and whole trace), or both are the skip after the modification
  detector returned true, with the same trace up to the last log line, which quotes \<open>a\<close>
  in one and \<open>b\<close> in the other. So both reach the same result, and with the log lines
  left out their traces (queries, mutations, suspensions) are the same. The login the
  detector compares with is that of the first commit.
\<close>

theorem tryMerge_ignores_github_login:
  "(tryMerge (env\<lparr>getInput := (getInput env)(''GITHUB_LOGIN'' := a)\<rparr>) octokit m pr tr =
    tryMerge (env\<lparr>getInput := (getInput env)(''GITHUB_LOGIN'' := b)\<rparr>) octokit m pr tr \<or>
    (\<exists>tr1. getIsModified octokit (detector_query pr) tr = Some (Inr True, tr1) \<and>
       tryMerge (env\<lparr>getInput := (getInput env)(''GITHUB_LOGIN'' := a)\<rparr>) octokit m pr tr =
         Some (Inr (), tr1 @ [LogInfo (''Pull request changes were not made by '' @ a @ ''.'')]) \<and>
       tryMerge (env\<lparr>getInput := (getInput env)(''GITHUB_LOGIN'' := b)\<rparr>) octokit m pr tr =
         Some (Inr (), tr1 @ [LogInfo (''Pull request changes were not made by '' @ b @ ''.'')]))) \<and>
   map_option (map_prod id (filter (\<lambda>e. \<not> is_log e)))
     (tryMerge (env\<lparr>getInput := (getInput env)(''GITHUB_LOGIN'' := a)\<rparr>) octokit m pr tr) =
   map_option (map_prod id (filter (\<lambda>e. \<not> is_log e)))
     (tryMerge (env\<lparr>getInput := (getInput env)(''GITHUB_LOGIN'' := b)\<rparr>) octokit m pr tr)"
  using tryMerge_login_cases[of env a octokit m pr tr b] by auto


text \<open>
  With the second commit by another author, the runs for the logins \<open>dependabot\<close> and
  \<open>renovate\<close> issue the same query and differ in the last log line only.
\<close>

theorem tryMerge_ignores_github_login_witness:
  "tryMerge (example_env\<lparr>getInput := (getInput example_env)(''GITHUB_LOGIN'' := ''dependabot'')\<rparr>)
      three_pages 2 example_pr [] =
     Some (Inr (), [Graphql (FindPullRequestCommits example_query None),
                    LogInfo ''Pull request changes were not made by dependabot.'']) \<and>
   tryMerge (example_env\<lparr>getInput := (getInput example_env)(''GITHUB_LOGIN'' := ''renovate'')\<rparr>)
      three_pages 2 example_pr [] =
     Some (Inr (), [Graphql (FindPullRequestCommits example_query None),
                    LogInfo ''Pull request changes were not made by renovate.'']) \<and>
   map_option (map_prod id (filter (\<lambda>e. \<not> is_log e)))
     (tryMerge (example_env\<lparr>getInput := (getInput example_env)(''GITHUB_LOGIN'' := ''dependabot'')\<rparr>)
        three_pages 2 example_pr []) =
   map_option (map_prod id (filter (\<lambda>e. \<not> is_log e)))
     (tryMerge (example_env\<lparr>getInput := (getInput example_env)(''GITHUB_LOGIN'' := ''renovate'')\<rparr>)
        three_pages 2 example_pr [])"
proof -
  have a: "tryMerge (example_env\<lparr>getInput := (getInput example_env)(''GITHUB_LOGIN'' := ''dependabot'')\<rparr>)
      three_pages 2 example_pr [] =
     Some (Inr (), [Graphql (FindPullRequestCommits example_query None),
                    LogInfo ''Pull request changes were not made by dependabot.''])"
    by code_simp
  have b: "tryMerge (example_env\<lparr>getInput := (getInput example_env)(''GITHUB_LOGIN'' := ''renovate'')\<rparr>)
      three_pages 2 example_pr [] =
     Some (Inr (), [Graphql (FindPullRequestCommits example_query None),
                    LogInfo ''Pull request changes were not made by renovate.''])"
    by code_simp
  from tryMerge_ignores_github_login[of example_env "''dependabot''" three_pages 2 example_pr "[]"
         "''renovate''"]
  have "map_option (map_prod id (filter (\<lambda>e. \<not> is_log e)))
     (tryMerge (example_env\<lparr>getInput := (getInput example_env)(''GITHUB_LOGIN'' := ''dependabot'')\<rparr>)
        three_pages 2 example_pr []) =
   map_option (map_prod id (filter (\<lambda>e. \<not> is_log e)))
     (tryMerge (example_env\<lparr>getInput := (getInput example_env)(''GITHUB_LOGIN'' := ''renovate'')\<rparr>)
        three_pages 2 example_pr [])"
    by (rule conjunct2)
  with a b show ?thesis by blast
qed

subsection \<open>C9: the merge method across retries\<close>

text \<open>
  C9, as the claim states it, fails in its first half: the merge method is not resolved
  once before the attempts. \<open>merge\<close> calls \<open>parseInputMergeMethod\<close> itself, so every
  attempt resolves the method anew. In a run of two attempts the parser is called twice,
  the second time after the first mutation and the suspension; and were the parser to
  answer \<open>SQUASH\<close> first and \<open>MERGE\<close> afterwards, the two attempts would carry different
  mutations.
\<close>

theorem mergeWithRetry_resolves_per_attempt_counterexample:
  "take 5 (snd (mergeWithRetry example_env always_modified
                  (example_details\<lparr>maximumRetries := 1\<rparr>) [])) =
     [ParsedMergeMethod SQUASH,
      Graphql (Mutation (approveAndMergePullRequestMutation SQUASH) ''Bump lodash'' ''PR_1''),
      LogInfo ''Retrying in 1000...'',
      Delay 1000,
      ParsedMergeMethod SQUASH] \<and>
   mutations (snd (mergeWithRetry
                (example_env\<lparr>parseInputMergeMethod := (\<lambda>k. if k = 0 then SQUASH else MERGE)\<rparr>)
                always_modified (example_details\<lparr>maximumRetries := 1\<rparr>) [])) =
     [Mutation (approveAndMergePullRequestMutation SQUASH) ''Bump lodash'' ''PR_1'',
      Mutation (approveAndMergePullRequestMutation MERGE) ''Bump lodash'' ''PR_1'']"
  by code_simp

text \<open>
  C9, amended. Every attempt of a run of \<open>mergeWithRetry\<close> resolves the merge method by
  its own call of \<open>parseInputMergeMethod\<close> and sends the mutation built from that answer:
  the mutations of the run are, in order, the answers of the parser mapped to mutations.
  The choice between approve-and-merge and merge-only, the commit headline and the id of
  the pull request are the same in all of them; and when the parser gives the same answer
  at every call, all mutations of the run are the same.
\<close>

theorem mergeWithRetry_payload_constant:
  "\<exists>new. mergeWithRetry env octokit d tr = (Inr (), tr @ new) \<and>
     parses new \<noteq> [] \<and>
     parses new =
       map (parseInputMergeMethod env)
         [length (parses tr) ..< length (parses tr) + length (parses new)] \<and>
     mutations new =
       map (\<lambda>mm. Mutation (chosen_mutation (reviewEdge d) mm) (commitHeadline d) (pullRequestId d))
         (parses new) \<and>
     ((\<forall>k. parseInputMergeMethod env k = mm0) \<longrightarrow>
        mutations new =
          replicate (length (mutations new))
            (Mutation (chosen_mutation (reviewEdge d) mm0) (commitHeadline d) (pullRequestId d)))"
proof -
  from mergeWithRetry_requests[of env octokit d tr] obtain new where
    new: "snd (mergeWithRetry env octokit d tr) = tr @ new"
      "requests new =
         map (\<lambda>m. Mutation (chosen_mutation (reviewEdge d) m) (commitHeadline d) (pullRequestId d))
           (parses new)"
      "parses new =
         map (parseInputMergeMethod env)
           [length (parses tr) ..< length (parses tr) + length (parses new)]"
      "parses new \<noteq> []"
    by blast
  have m: "mutations new =
       map (\<lambda>mm. Mutation (chosen_mutation (reviewEdge d) mm) (commitHeadline d) (pullRequestId d))
         (parses new)"
    using mutations_requests[OF new(2)] new(2) by simp
  have r: "mergeWithRetry env octokit d tr = (Inr (), tr @ new)"
    using new(1) mergeWithRetry_returns[of env octokit d tr] by (simp add: prod_eq_iff)
  have c: "mutations new =
          replicate (length (mutations new))
            (Mutation (chosen_mutation (reviewEdge d) mm0) (commitHeadline d) (pullRequestId d))"
    if "\<forall>k. parseInputMergeMethod env k = mm0"
  proof -
    from that new(3) have "parses new = replicate (length (parses new)) mm0"
      by (metis (no_types, lifting) length_map map_replicate_const map_eq_conv)
    then have "map (\<lambda>mm. Mutation (chosen_mutation (reviewEdge d) mm) (commitHeadline d) (pullRequestId d))
                 (parses new) =
               replicate (length (parses new))
                 (Mutation (chosen_mutation (reviewEdge d) mm0) (commitHeadline d) (pullRequestId d))"
      by (metis map_replicate)
    then show ?thesis
      unfolding m by simp
  qed
  from r new(4) new(3) m c show ?thesis
    by blast
qed


text \<open>
  With the bound 2, a parser that always answers \<open>SQUASH\<close> and an executor that always
  rejects: three equal mutations.
\<close>

theorem mergeWithRetry_payload_constant_witness:
  "parseInputMergeMethod example_env 0 = SQUASH \<and>
   (\<exists>new. mergeWithRetry example_env always_modified example_details [] = (Inr (), new) \<and>
      mutations new =
        replicate 3 (Mutation (approveAndMergePullRequestMutation SQUASH) ''Bump lodash'' ''PR_1''))"
proof -
  have h: "\<forall>k. parseInputMergeMethod example_env k = SQUASH"
    by (simp add: example_env_def)
  have l: "length (mutations (snd (mergeWithRetry example_env always_modified example_details []))) = 3"
    by code_simp
  have c: "chosen_mutation (reviewEdge example_details) SQUASH = approveAndMergePullRequestMutation SQUASH"
    "commitHeadline example_details = ''Bump lodash''" "pullRequestId example_details = ''PR_1''"
    by (simp_all add: chosen_mutation_def example_details_def)
  from mergeWithRetry_payload_constant[of example_env always_modified example_details "[]" SQUASH] h
  obtain new where
    new: "mergeWithRetry example_env always_modified example_details [] = (Inr (), new)"
      "mutations new =
          replicate (length (mutations new))
            (Mutation (chosen_mutation (reviewEdge example_details) SQUASH)
               (commitHeadline example_details) (pullRequestId example_details))"
    by auto
  from l new(1) have "length (mutations new) = 3"
    by simp
  with new c h show ?thesis
    by auto
qed

lemma iterator_take_first_page:
  assumes "octokit (requests tr) (FindPullRequestCommits query None) = Inr response"
    and "extractListFunction response = Inr (Some page)"
    and "nodes page = c1 # c2 # rest"
  shows "iterator_take octokit 2 (makeGraphqlIterator query) tr =
           Some ([c1, c2],
                 \<lparr>parameters = query, buffer = rest, cursor = endCursor (pageInfo page),
                    pending = hasNextPage (pageInfo page)\<rparr>,
                 tr @ [Graphql (FindPullRequestCommits query None)])"
proof -
  let ?it = "makeGraphqlIterator query"
  have "iterator_next octokit ?it tr =
     Some (Inr (Some c1, ?it\<lparr>buffer := c2 # rest, cursor := endCursor (pageInfo page),
                             pending := hasNextPage (pageInfo page)\<rparr>),
           tr @ [Graphql (FindPullRequestCommits (parameters ?it) (cursor ?it))])"
    using assms by (intro iterator_next_fetches) (simp_all add: makeGraphqlIterator_def)
  then show ?thesis
    by (simp add: numeral_2_eq_2 iterator_next_buffered makeGraphqlIterator_def)
qed

lemma iterator_take_second_page:
  assumes "octokit (requests tr) (FindPullRequestCommits query None) = Inr response1"
    and "extractListFunction response1 = Inr (Some page1)"
    and "nodes page1 = [c1]" and "hasNextPage (pageInfo page1)"
    and "octokit (requests tr @ [FindPullRequestCommits query None])
           (FindPullRequestCommits query (endCursor (pageInfo page1))) = Inr response2"
    and "extractListFunction response2 = Inr (Some page2)"
    and "nodes page2 = c2 # rest"
  shows "iterator_take octokit 2 (makeGraphqlIterator query) tr =
           Some ([c1, c2],
                 \<lparr>parameters = query, buffer = rest, cursor = endCursor (pageInfo page2),
                    pending = hasNextPage (pageInfo page2)\<rparr>,
                 tr @ [Graphql (FindPullRequestCommits query None),
                       Graphql (FindPullRequestCommits query (endCursor (pageInfo page1)))])"
proof -
  let ?it = "makeGraphqlIterator query"
  let ?it1 = "\<lparr>parameters = query, buffer = [], cursor = endCursor (pageInfo page1), pending = True\<rparr>"
  let ?tr1 = "tr @ [Graphql (FindPullRequestCommits query None)]"
  have n1: "iterator_next octokit ?it tr = Some (Inr (Some c1, ?it1), ?tr1)"
    using iterator_next_fetches[of ?it octokit tr response1 page1 c1 "[]"] assms(1-4)
    by (simp add: makeGraphqlIterator_def)
  have n2: "iterator_next octokit ?it1 ?tr1 =
     Some (Inr (Some c2, \<lparr>parameters = query, buffer = rest, cursor = endCursor (pageInfo page2),
                            pending = hasNextPage (pageInfo page2)\<rparr>),
           ?tr1 @ [Graphql (FindPullRequestCommits query (endCursor (pageInfo page1)))])"
    using iterator_next_fetches[of ?it1 octokit ?tr1 response2 page2 c2 rest] assms(5-7)
    by simp
  show ?thesis
    by (simp add: numeral_2_eq_2 n1 n2)
qed

lemma extractListFunction_commits_page:
  "extractListFunction (commits_page ns c h) =
     Inr (Some \<lparr>nodes = ns, pageInfo = \<lparr>endCursor = c, hasNextPage = h\<rparr>\<rparr>)"
  by (simp add: extractListFunction_def commits_page_def)

subsection \<open>C8: a second commit by another author\<close>

text \<open>
  C8. When the second commit the fetcher delivers has a valid signature and an author
  login that differs from the login of the first commit, \<open>getIsModified\<close> returns true at
  once: the trace it leaves is the trace at the moment the fetcher delivered that second
  commit, whatever the fetcher still has to offer (\<open>it'\<close> is arbitrary: more pages may be
  pending). In terms of pages: when both commits are on the first page, the query for that
  page is the only request, and when the first page holds the first commit alone and the
  second page starts with the second commit, the queries for these two pages are the
  only requests; in both cases whether the last page fetched announces a next page does
  not matter. The signature of the first commit is not needed.
\<close>

theorem getIsModified_second_author_differs:
  assumes "has_valid_signature c2"
    and "author_user_login (author (commit c1)) = Inr l1"
    and "author_user_login (author (commit c2)) = Inr l2"
    and "l1 \<noteq> l2"
  shows "(iterator_take octokit 2 (makeGraphqlIterator query) tr = Some ([c1, c2], it', tr') \<longrightarrow>
            getIsModified octokit query tr = Some (Inr True, tr')) \<and>
         (octokit (requests tr) (FindPullRequestCommits query None) = Inr response \<and>
          extractListFunction response = Inr (Some page) \<and>
          nodes page = c1 # c2 # rest \<longrightarrow>
            getIsModified octokit query tr =
              Some (Inr True, tr @ [Graphql (FindPullRequestCommits query None)])) \<and>
         (octokit (requests tr) (FindPullRequestCommits query None) = Inr response1 \<and>
          extractListFunction response1 = Inr (Some page1) \<and>
          nodes page1 = [c1] \<and> hasNextPage (pageInfo page1) \<and>
          octokit (requests tr @ [FindPullRequestCommits query None])
            (FindPullRequestCommits query (endCursor (pageInfo page1))) = Inr response2 \<and>
          extractListFunction response2 = Inr (Some page2) \<and>
          nodes page2 = c2 # rest2 \<longrightarrow>
            getIsModified octokit query tr =
              Some (Inr True,
                    tr @ [Graphql (FindPullRequestCommits query None),
                          Graphql (FindPullRequestCommits query (endCursor (pageInfo page1)))]))"
proof -
  have stop: "getIsModified octokit query tr = Some (Inr True, t)"
    if "iterator_take octokit 2 (makeGraphqlIterator query) tr = Some ([c1, c2], i, t)" for i t
  proof -
    from that obtain it1 tr1 where
      n1: "iterator_next octokit (makeGraphqlIterator query) tr = Some (Inr (Some c1, it1), tr1)"
      and n2: "iterator_next octokit it1 tr1 = Some (Inr (Some c2, i), t)"
      by (auto simp: numeral_2_eq_2 split: option.splits prod.splits sum.splits)
    have "getIsModified octokit query tr = getIsModified_loop octokit c1 it1 tr1"
      using n1 by (rule getIsModified_first)
    also have "\<dots> = Some (Inr True, t)"
      using assms by (simp add: getIsModified_loop_stops[OF n2])
    finally show ?thesis .
  qed
  show ?thesis
  proof (intro conjI impI)
    assume "iterator_take octokit 2 (makeGraphqlIterator query) tr = Some ([c1, c2], it', tr')"
    then show "getIsModified octokit query tr = Some (Inr True, tr')"
      by (rule stop)
  next
    assume "octokit (requests tr) (FindPullRequestCommits query None) = Inr response \<and>
          extractListFunction response = Inr (Some page) \<and>
          nodes page = c1 # c2 # rest"
    then have "iterator_take octokit 2 (makeGraphqlIterator query) tr =
           Some ([c1, c2],
                 \<lparr>parameters = query, buffer = rest, cursor = endCursor (pageInfo page),
                    pending = hasNextPage (pageInfo page)\<rparr>,
                 tr @ [Graphql (FindPullRequestCommits query None)])"
      by (intro iterator_take_first_page) auto
    then show "getIsModified octokit query tr =
              Some (Inr True, tr @ [Graphql (FindPullRequestCommits query None)])"
      by (rule stop)
  next
    assume "octokit (requests tr) (FindPullRequestCommits query None) = Inr response1 \<and>
          extractListFunction response1 = Inr (Some page1) \<and>
          nodes page1 = [c1] \<and> hasNextPage (pageInfo page1) \<and>
          octokit (requests tr @ [FindPullRequestCommits query None])
            (FindPullRequestCommits query (endCursor (pageInfo page1))) = Inr response2 \<and>
          extractListFunction response2 = Inr (Some page2) \<and>
          nodes page2 = c2 # rest2"
    then have "iterator_take octokit 2 (makeGraphqlIterator query) tr =
           Some ([c1, c2],
                 \<lparr>parameters = query, buffer = rest2, cursor = endCursor (pageInfo page2),
                    pending = hasNextPage (pageInfo page2)\<rparr>,
                 tr @ [Graphql (FindPullRequestCommits query None),
                       Graphql (FindPullRequestCommits query (endCursor (pageInfo page1)))])"
      by (intro iterator_take_second_page) auto
    then show "getIsModified octokit query tr =
              Some (Inr True,
                    tr @ [Graphql (FindPullRequestCommits query None),
                          Graphql (FindPullRequestCommits query (endCursor (pageInfo page1)))])"
      by (rule stop)
  qed
qed

text \<open>
  With three pages on offer: when the two commits are on the first page, one query is
  issued; when they are on the first and the second page, two.
\<close>

theorem getIsModified_second_author_differs_witness:
  "has_valid_signature (signed_by ''mallory'') \<and>
   author_user_login (author (commit (signed_by ''dependabot''))) = Inr ''dependabot'' \<and>
   author_user_login (author (commit (signed_by ''mallory''))) = Inr ''mallory'' \<and>
   ''dependabot'' \<noteq> ''mallory'' \<and>
   iterator_take three_pages 2 (makeGraphqlIterator example_query) [] =
     Some ([signed_by ''dependabot'', signed_by ''mallory''],
           \<lparr>parameters = example_query, buffer = [], cursor = Some ''p1'', pending = True\<rparr>,
           [Graphql (FindPullRequestCommits example_query None)]) \<and>
   getIsModified three_pages example_query [] =
     Some (Inr True, [Graphql (FindPullRequestCommits example_query None)]) \<and>
   getIsModified one_per_page example_query [] =
     Some (Inr True, [Graphql (FindPullRequestCommits example_query None),
                      Graphql (FindPullRequestCommits example_query (Some ''p1''))])"
proof -
  have h1: "has_valid_signature (signed_by ''mallory'')"
    by (simp add: has_valid_signature_def signed_by_def)
  have h2: "author_user_login (author (commit (signed_by ''dependabot''))) = Inr ''dependabot''"
    and h3: "author_user_login (author (commit (signed_by ''mallory''))) = Inr ''mallory''"
    by (simp_all add: author_user_login_def signed_by_def)
  have h4: "''dependabot'' \<noteq> ''mallory''"
    by simp
  note t = getIsModified_second_author_differs[OF h1 h2 h3 h4]
  have k: "iterator_take three_pages 2 (makeGraphqlIterator example_query) [] =
     Some ([signed_by ''dependabot'', signed_by ''mallory''],
           \<lparr>parameters = example_query, buffer = [], cursor = Some ''p1'', pending = True\<rparr>,
           [Graphql (FindPullRequestCommits example_query None)])"
    by code_simp
  have a: "getIsModified three_pages example_query [] =
     Some (Inr True, [Graphql (FindPullRequestCommits example_query None)])"
    using t[of three_pages example_query "[]"] k by blast
  have b: "getIsModified one_per_page example_query [] =
     Some (Inr True, [Graphql (FindPullRequestCommits example_query None),
                      Graphql (FindPullRequestCommits example_query (Some ''p1''))])"
    using t[of one_per_page example_query "[]" _ _
            "commits_page [signed_by ''dependabot'', signed_by ''mallory''] None False"
            "\<lparr>nodes = [signed_by ''dependabot'', signed_by ''mallory''],
               pageInfo = \<lparr>endCursor = None, hasNextPage = False\<rparr>\<rparr>" "[]"
            "commits_page [signed_by ''dependabot''] (Some ''p1'') True"
            "\<lparr>nodes = [signed_by ''dependabot''],
               pageInfo = \<lparr>endCursor = Some ''p1'', hasNextPage = True\<rparr>\<rparr>"
            "commits_page [signed_by ''mallory''] (Some ''p2'') True"
            "\<lparr>nodes = [signed_by ''mallory''],
               pageInfo = \<lparr>endCursor = Some ''p2'', hasNextPage = True\<rparr>\<rparr>" "[]"]
    by (simp add: one_per_page_def extractListFunction_commits_page)
  from h1 h2 h3 h4 k a b show ?thesis by blast
qed

end
